theory Spec2Isabelle
  imports Complex_Main "HOL-Library.Sublist"
begin

section \<open>PatternDetector: a shallow embedding of src/lib/PatternDetector.cpp\<close>

text \<open>
  The detector locates a trained planar pattern in a camera frame.  The functions of
  \<^verbatim>\<open>PatternDetector.cpp\<close> are embedded below, one definition per member function,
  with the same names, the same order of checks and the same branches.

  \<^item> Member state is a record that every function receives and returns.
  \<^item> A failed \<^verbatim>\<open>assert\<close>, an out-of-range \<^verbatim>\<open>operator[]\<close> on a
    \<^verbatim>\<open>std::vector\<close> and a \<^verbatim>\<open>cv::Exception\<close> are values of the type \<open>failure\<close>; a
    function that can hit one returns \<open>failure + result\<close>.
  \<^item> The calls into the OpenCV library (feature detection, descriptor matching,
    homography fitting, warping, matrix product) are fields of the record \<open>cv_lib\<close>,
    passed to every function: the library is a parameter of the development.
  \<^item> The calls into OpenCV are taken to return, with one exception: the product of two
    \<^verbatim>\<open>cv::Mat\<close> raises when an operand is empty or the inner dimensions differ.
  \<^item> A C++ \<^verbatim>\<open>float\<close> is a value of \<open>cfloat\<close>: a finite real, an infinity or NaN.
    Division and the conversion from \<^verbatim>\<open>int\<close> round to the nearest binary32 value
    (ties to even, overflow to infinity, gradual underflow); division and comparison
    follow IEEE 754 on the special values.  The two zeros are identified.
\<close>

subsection \<open>Floating-point values\<close>

datatype cfloat = Fin real | PInf | NInf | NaN

fun fneg :: "cfloat \<Rightarrow> cfloat" where
  "fneg (Fin a) = Fin (- a)"
| "fneg PInf = NInf"
| "fneg NInf = PInf"
| "fneg NaN = NaN"

text \<open>
  Rounding to binary32.  \<open>rne\<close> rounds a real to the nearest integer, ties to the even
  one.  \<open>normalise\<close> writes a positive real as \<open>m * s\<close> with \<open>s\<close> a power of two and
  \<open>2^23 \<le> m < 2^24\<close> (24 significant bits), or with \<open>s = 2^-149\<close> and \<open>m < 2^23\<close> for
  a subnormal; its first argument bounds the number of steps, and 400 steps leave
  \<open>m \<ge> 2^24\<close> only for values beyond the binary32 range.  \<open>round32\<close> rounds \<open>m\<close> and
  scales back; a result of \<open>2^128\<close> or more is an infinity.  The constants are written
  out: \<open>2^23 = 8388608\<close>, \<open>2^24 = 16777216\<close>,
  \<open>2^128 = 340282366920938463463374607431768211456\<close> and
  \<open>2^149 = 713623846352979940529142984724747568191373312\<close>.
\<close>

definition rne :: "real \<Rightarrow> int" where
  "rne m =
     (let f = \<lfloor>m\<rfloor>; r = m - of_int f
      in if r < 1 / 2 then f
         else if 1 / 2 < r then f + 1
         else if even f then f else f + 1)"

fun normalise :: "nat \<Rightarrow> real \<Rightarrow> real \<Rightarrow> real \<times> real" where
  "normalise 0 m s = (m, s)"
| "normalise (Suc k) m s =
     (if 16777216 \<le> m then normalise k (m / 2) (2 * s)
      else if m < 8388608 \<and> 1 / 713623846352979940529142984724747568191373312 < s
      then normalise k (2 * m) (s / 2)
      else (m, s))"

definition round32 :: "real \<Rightarrow> cfloat" where
  "round32 x =
     (if x = 0 then Fin 0
      else
        let (m, s) = normalise 400 \<bar>x\<bar> 1;
            r = of_int (rne m) * s
        in if 340282366920938463463374607431768211456 \<le> r
           then (if 0 < x then PInf else NInf)
           else Fin (if 0 < x then r else - r))"

text \<open>The conversion of a non-negative \<^verbatim>\<open>int\<close> to \<^verbatim>\<open>float\<close>.\<close>

definition float_of_nat :: "nat \<Rightarrow> cfloat" where
  "float_of_nat n = round32 (real n)"

text \<open>
  \<^verbatim>\<open>a / b\<close>: the quotient of two finite values rounded to binary32; \<open>0 / 0\<close> and
  \<open>inf / inf\<close> are NaN, a non-zero value over zero is an infinity.
\<close>

fun fdiv :: "cfloat \<Rightarrow> cfloat \<Rightarrow> cfloat" where
  "fdiv NaN _ = NaN"
| "fdiv _ NaN = NaN"
| "fdiv (Fin a) (Fin b) =
     (if b \<noteq> 0 then round32 (a / b)
      else if a = 0 then NaN
      else if 0 < a then PInf else NInf)"
| "fdiv (Fin a) PInf = Fin 0"
| "fdiv (Fin a) NInf = Fin 0"
| "fdiv PInf (Fin b) = (if b < 0 then NInf else PInf)"
| "fdiv NInf (Fin b) = (if b < 0 then PInf else NInf)"
| "fdiv PInf PInf = NaN"
| "fdiv PInf NInf = NaN"
| "fdiv NInf PInf = NaN"
| "fdiv NInf NInf = NaN"

text \<open>\<^verbatim>\<open>a < b\<close>: every comparison with NaN is false.\<close>

fun flt :: "cfloat \<Rightarrow> cfloat \<Rightarrow> bool" where
  "flt NaN _ = False"
| "flt _ NaN = False"
| "flt (Fin a) (Fin b) = (a < b)"
| "flt (Fin a) PInf = True"
| "flt (Fin a) NInf = False"
| "flt PInf _ = False"
| "flt NInf (Fin b) = True"
| "flt NInf PInf = True"
| "flt NInf NInf = False"

text \<open>\<^verbatim>\<open>std::max(a, b)\<close> is \<^verbatim>\<open>(a < b) ? b : a\<close>.\<close>

definition fmax :: "cfloat \<Rightarrow> cfloat \<Rightarrow> cfloat" where
  "fmax a b = (if flt a b then b else a)"

definition isnan :: "cfloat \<Rightarrow> bool" where
  "isnan v = (v = NaN)"

subsection \<open>Data\<close>

datatype Point2f = Point2f cfloat cfloat

datatype Point3f = Point3f cfloat cfloat cfloat

text \<open>
  \<^verbatim>\<open>cv::Mat\<close>: images, descriptor tables (one row per keypoint) and homographies.
  A default-constructed matrix has no rows and no columns.
\<close>

record Mat =
  rows :: nat
  cols :: nat
  channels :: nat
  elems :: "real list"

definition Mat_default :: Mat where
  "Mat_default = \<lparr>rows = 0, cols = 0, channels = 1, elems = []\<rparr>"

definition Mat_empty :: "Mat \<Rightarrow> bool" where
  "Mat_empty m = (rows m = 0 \<or> cols m = 0)"

text \<open>\<^verbatim>\<open>cv::Mat::eye(3, 3, CV_64FC1)\<close>\<close>

definition Mat_eye3 :: Mat where
  "Mat_eye3 = \<lparr>rows = 3, cols = 3, channels = 1, elems = [1, 0, 0, 0, 1, 0, 0, 0, 1]\<rparr>"

text \<open>\<^verbatim>\<open>cv::KeyPoint\<close>: only the location \<^verbatim>\<open>pt\<close> is read by the detector.\<close>

record KeyPoint =
  pt :: Point2f

record DMatch =
  queryIdx :: int
  trainIdx :: int
  imgIdx :: int
  distance :: cfloat

record Pattern =
  size_pat :: "nat \<times> nat"
  points2d :: "Point2f list"
  points3d :: "Point3f list"
  keypoints :: "KeyPoint list"
  descriptors :: Mat

record PatternTrackingInfo =
  info_patternIdx :: int
  info_homography :: Mat
  info_points2d :: "Point2f list"

datatype failure = AssertionFailed | OutOfRange | CvException

datatype ColorCode = COLOR_BGR2GRAY | COLOR_BGRA2GRAY

text \<open>
  The OpenCV calls the detector makes.  A trained \<^verbatim>\<open>cv::BFMatcher\<close> is the list of
  descriptor tables added to it; \<open>cv_knnMatch\<close> and \<open>cv_match\<close> receive that list
  and the query descriptors.  \<open>cv_findHomography\<close> returns the matrix and the inlier
  mask (a \<^verbatim>\<open>std::vector<unsigned char>\<close>).
\<close>

record cv_lib =
  cv_detect :: "Mat \<Rightarrow> KeyPoint list"
  cv_compute :: "Mat \<Rightarrow> KeyPoint list \<Rightarrow> KeyPoint list \<times> Mat"
  cv_cvtColor :: "ColorCode \<Rightarrow> Mat \<Rightarrow> Mat"
  cv_knnMatch :: "Mat list \<Rightarrow> Mat \<Rightarrow> nat \<Rightarrow> DMatch list list"
  cv_match :: "Mat list \<Rightarrow> Mat \<Rightarrow> DMatch list"
  cv_findHomography :: "Point2f list \<Rightarrow> Point2f list \<Rightarrow> cfloat \<Rightarrow> Mat \<times> nat list"
  cv_warpPerspective :: "Mat \<Rightarrow> Mat \<Rightarrow> nat \<times> nat \<Rightarrow> Mat"
  cv_perspectiveTransform :: "Point2f list \<Rightarrow> Mat \<Rightarrow> Point2f list"
  cv_matmul :: "Mat \<Rightarrow> Mat \<Rightarrow> Mat"

text \<open>
  \<^verbatim>\<open>A * B\<close> on \<^verbatim>\<open>cv::Mat\<close>.  OpenCV checks the operands before it multiplies: they
  must have the same floating-point element type and the columns of \<open>A\<close> must be the
  rows of \<open>B\<close>, otherwise it raises \<^verbatim>\<open>cv::Exception\<close>.  A default-constructed (empty)
  matrix passes neither check.  The product itself is the library's.
\<close>

definition Mat_product :: "cv_lib \<Rightarrow> Mat \<Rightarrow> Mat \<Rightarrow> failure + Mat" where
  "Mat_product L A B =
     (if Mat_empty A \<or> Mat_empty B \<or> cols A \<noteq> rows B then Inl CvException
      else Inr (cv_matmul L A B))"

subsection \<open>getGray and extractFeatures\<close>

text \<open>With a channel count other than 1, 3 or 4 the output matrix is left as it was.\<close>

definition getGray :: "cv_lib \<Rightarrow> Mat \<Rightarrow> Mat \<Rightarrow> Mat" where
  "getGray L img gray =
     (if channels img = 3 then cv_cvtColor L COLOR_BGR2GRAY img
      else if channels img = 4 then cv_cvtColor L COLOR_BGRA2GRAY img
      else if channels img = 1 then img
      else gray)"

text \<open>
  The result is the returned flag and the two output arguments.  When the detector
  finds no keypoint, \<^verbatim>\<open>descriptors\<close> keeps the value it had at the call.
\<close>

definition extractFeatures ::
  "cv_lib \<Rightarrow> Mat \<Rightarrow> Mat \<Rightarrow> failure + (bool \<times> KeyPoint list \<times> Mat)" where
  "extractFeatures L img descriptors0 =
     (if Mat_empty img then Inl AssertionFailed
      else if channels img \<noteq> 1 then Inl AssertionFailed
      else
        let kps = cv_detect L img in
        if kps = [] then Inr (False, kps, descriptors0)
        else
          let (kps', descs) = cv_compute L img kps in
          if kps' = [] then Inr (False, kps', descs)
          else Inr (True, kps', descs))"

subsection \<open>buildPatternsFromImages\<close>

text \<open>One iteration of the loop over the images: the pattern built from one image.\<close>

definition buildPattern :: "cv_lib \<Rightarrow> Mat \<Rightarrow> failure + Pattern" where
  "buildPattern L img =
     (let grayImage = getGray L img Mat_default;
          w = float_of_nat (cols img);
          h = float_of_nat (rows img);
          maxSize = fmax w h;
          unitW = fdiv w maxSize;
          unitH = fdiv h maxSize
      in case extractFeatures L grayImage Mat_default of
           Inl e \<Rightarrow> Inl e
         | Inr (_, kps, descs) \<Rightarrow>
             Inr \<lparr>size_pat = (cols img, rows img),
                  points2d = [Point2f (Fin 0) (Fin 0), Point2f w (Fin 0),
                              Point2f w h, Point2f (Fin 0) h],
                  points3d = [Point3f (fneg unitW) (fneg unitH) (Fin 0),
                              Point3f unitW (fneg unitH) (Fin 0),
                              Point3f unitW unitH (Fin 0),
                              Point3f (fneg unitW) unitH (Fin 0)],
                  keypoints = kps,
                  descriptors = descs\<rparr>)"

fun buildLoop :: "cv_lib \<Rightarrow> Mat list \<Rightarrow> Pattern list \<Rightarrow> failure + Pattern list" where
  "buildLoop L [] patterns = Inr patterns"
| "buildLoop L (img # images) patterns =
     (case buildPattern L img of
        Inl e \<Rightarrow> Inl e
      | Inr pattern \<Rightarrow> buildLoop L images (patterns @ [pattern]))"

definition buildPatternsFromImages :: "cv_lib \<Rightarrow> Mat list \<Rightarrow> failure + Pattern list" where
  "buildPatternsFromImages L images = buildLoop L images []"

subsection \<open>The detector's state\<close>

text \<open>
  The members of \<^verbatim>\<open>PatternDetector\<close> that this file reads or writes (the class is
  declared in the header).  \<^verbatim>\<open>m_detector\<close> and \<^verbatim>\<open>m_extractor\<close> are the
  \<open>cv_detect\<close> and \<open>cv_compute\<close> of the library record.
\<close>

record PatternDetector =
  enableRatioTest :: bool
  enableHomographyRefinement :: bool
  homographyReprojectionThreshold :: cfloat
  m_patterns :: "Pattern list"
  m_matchers :: "Mat list list"
  m_grayImg :: Mat
  m_warpedImg :: Mat
  m_queryKeypoints :: "KeyPoint list"
  m_queryDescriptors :: Mat
  m_matches :: "DMatch list list"
  m_matches_homography :: "Mat list"
  m_matches_homographyFound :: "bool list"
  m_roughHomography :: Mat
  m_refinedHomography :: Mat
  m_pattern :: Pattern

definition Pattern_default :: Pattern where
  "Pattern_default =
     \<lparr>size_pat = (0, 0), points2d = [], points3d = [], keypoints = [],
      descriptors = Mat_default\<rparr>"

text \<open>The constructor: refinement on, reprojection threshold 3, nothing trained.\<close>

definition PatternDetector_new :: "bool \<Rightarrow> PatternDetector" where
  "PatternDetector_new ratioTest =
     \<lparr>enableRatioTest = ratioTest,
      enableHomographyRefinement = True,
      homographyReprojectionThreshold = Fin 3,
      m_patterns = [],
      m_matchers = [],
      m_grayImg = Mat_default,
      m_warpedImg = Mat_default,
      m_queryKeypoints = [],
      m_queryDescriptors = Mat_default,
      m_matches = [],
      m_matches_homography = [],
      m_matches_homographyFound = [],
      m_roughHomography = Mat_default,
      m_refinedHomography = Mat_default,
      m_pattern = Pattern_default\<rparr>"

text \<open>
  \<^verbatim>\<open>train\<close>: one brute-force matcher per pattern, holding a copy of that pattern's
  descriptor table.
\<close>

definition train :: "PatternDetector \<Rightarrow> Pattern list \<Rightarrow> PatternDetector" where
  "train D patterns =
     D\<lparr>m_patterns := patterns,
       m_matchers := map (\<lambda>p. [descriptors p]) patterns\<rparr>"

text \<open>\<^verbatim>\<open>v[i]\<close> on a \<^verbatim>\<open>std::vector\<close> with an \<^verbatim>\<open>int\<close> index.\<close>

definition vec_at :: "'a list \<Rightarrow> int \<Rightarrow> failure + 'a" where
  "vec_at v i = (if 0 \<le> i \<and> i < int (length v) then Inr (v ! nat i) else Inl OutOfRange)"

subsection \<open>Ratio test and getMatches\<close>

definition minRatio :: cfloat where
  "minRatio = fdiv (Fin 1) (Fin (3 / 2))"

definition distanceRatio :: "DMatch \<Rightarrow> DMatch \<Rightarrow> cfloat" where
  "distanceRatio bestMatch betterMatch = fdiv (distance bestMatch) (distance betterMatch)"

text \<open>
  The loop over \<^verbatim>\<open>knnMatches\<close>, written twice in the source with the same text (in
  \<^verbatim>\<open>findPatternMatch\<close> and in \<^verbatim>\<open>getMatches\<close>).  It reads the entries 0 and 1 of
  every inner vector.
\<close>

fun ratioLoop :: "DMatch list list \<Rightarrow> DMatch list \<Rightarrow> failure + DMatch list" where
  "ratioLoop [] matches = Inr matches"
| "ratioLoop ((bestMatch # betterMatch # _) # knnMatches) matches =
     (if flt (distanceRatio bestMatch betterMatch) minRatio
      then ratioLoop knnMatches (matches @ [bestMatch])
      else ratioLoop knnMatches matches)"
| "ratioLoop (_ # knnMatches) matches = Inl OutOfRange"

definition getMatches :: "cv_lib \<Rightarrow> PatternDetector \<Rightarrow> Mat \<Rightarrow> int \<Rightarrow> failure + DMatch list" where
  "getMatches L D queryDescriptors patternIdx =
     (case vec_at (m_matchers D) patternIdx of
        Inl e \<Rightarrow> Inl e
      | Inr matcher \<Rightarrow>
          if enableRatioTest D
          then ratioLoop (cv_knnMatch L matcher queryDescriptors 2) []
          else Inr (cv_match L matcher queryDescriptors))"

subsection \<open>refineMatchesWithHomography\<close>

definition minNumberMatchesAllowed :: nat where
  "minNumberMatchesAllowed = 25"

text \<open>The loop that fills \<^verbatim>\<open>srcPoints\<close> and \<^verbatim>\<open>dstPoints\<close>.\<close>

fun pointsLoop ::
  "KeyPoint list \<Rightarrow> KeyPoint list \<Rightarrow> DMatch list \<Rightarrow> failure + (Point2f list \<times> Point2f list)" where
  "pointsLoop queryKeypoints trainKeypoints [] = Inr ([], [])"
| "pointsLoop queryKeypoints trainKeypoints (m # matches) =
     (case vec_at trainKeypoints (trainIdx m) of
        Inl e \<Rightarrow> Inl e
      | Inr tk \<Rightarrow>
         (case vec_at queryKeypoints (queryIdx m) of
            Inl e \<Rightarrow> Inl e
          | Inr qk \<Rightarrow>
             (case pointsLoop queryKeypoints trainKeypoints matches of
                Inl e \<Rightarrow> Inl e
              | Inr (srcPoints, dstPoints) \<Rightarrow> Inr (pt tk # srcPoints, pt qk # dstPoints))))"

text \<open>The loop over the inlier mask; \<open>i\<close> is the loop index.\<close>

fun inliersLoop :: "nat list \<Rightarrow> DMatch list \<Rightarrow> nat \<Rightarrow> DMatch list \<Rightarrow> failure + DMatch list" where
  "inliersLoop [] matches i inliers = Inr inliers"
| "inliersLoop (b # inliersMask) matches i inliers =
     (if b \<noteq> 0
      then (if i < length matches
            then inliersLoop inliersMask matches (Suc i) (inliers @ [matches ! i])
            else Inl OutOfRange)
      else inliersLoop inliersMask matches (Suc i) inliers)"

text \<open>The result is the returned flag and the two in-out arguments.\<close>

definition refineMatchesWithHomography ::
  "cv_lib \<Rightarrow> KeyPoint list \<Rightarrow> KeyPoint list \<Rightarrow> cfloat \<Rightarrow> DMatch list \<Rightarrow> Mat \<Rightarrow>
   failure + (bool \<times> DMatch list \<times> Mat)" where
  "refineMatchesWithHomography L queryKeypoints trainKeypoints reprojectionThreshold
       matches homography0 =
     (if length matches < minNumberMatchesAllowed then Inr (False, matches, homography0)
      else
        case pointsLoop queryKeypoints trainKeypoints matches of
          Inl e \<Rightarrow> Inl e
        | Inr (srcPoints, dstPoints) \<Rightarrow>
            let (found, inliersMask) =
                  cv_findHomography L srcPoints dstPoints reprojectionThreshold;
                H = (if Mat_empty found then Mat_eye3 else found)
            in case inliersLoop inliersMask matches 0 [] of
                 Inl e \<Rightarrow> Inl e
               | Inr inliers \<Rightarrow> Inr (minNumberMatchesAllowed < length inliers, inliers, H))"

subsection \<open>findPatternMatch and the dispatch over the patterns\<close>

definition findPatternMatch ::
  "cv_lib \<Rightarrow> PatternDetector \<Rightarrow> Mat \<Rightarrow> int \<Rightarrow> failure + PatternDetector" where
  "findPatternMatch L D queryDescriptors patternIdx =
     (case vec_at (m_matchers D) patternIdx of
        Inl e \<Rightarrow> Inl e
      | Inr matcher \<Rightarrow>
         (case (if enableRatioTest D
                then ratioLoop (cv_knnMatch L matcher queryDescriptors 2) []
                else Inr (cv_match L matcher queryDescriptors)) of
            Inl e \<Rightarrow> Inl e
          | Inr matches \<Rightarrow>
             (case vec_at (m_patterns D) patternIdx of
                Inl e \<Rightarrow> Inl e
              | Inr pattern \<Rightarrow>
                 (case refineMatchesWithHomography L (m_queryKeypoints D) (keypoints pattern)
                         (homographyReprojectionThreshold D) matches Mat_default of
                    Inl e \<Rightarrow> Inl e
                  | Inr (homographyFoundinPattern, matches', roughHomography) \<Rightarrow>
                      if 0 \<le> patternIdx \<and>
                         patternIdx < int (length (m_matches D)) \<and>
                         patternIdx < int (length (m_matches_homography D)) \<and>
                         patternIdx < int (length (m_matches_homographyFound D))
                      then Inr (D\<lparr>m_matches := (m_matches D)[nat patternIdx := matches'],
                                  m_matches_homography :=
                                    (m_matches_homography D)[nat patternIdx := roughHomography],
                                  m_matches_homographyFound :=
                                    (m_matches_homographyFound D)
                                      [nat patternIdx := homographyFoundinPattern]\<rparr>)
                      else Inl OutOfRange))))"

text \<open>
  Modelled from the spec: the body of the \<^verbatim>\<open>PatternMatch\<close> functor handed to
  \<^verbatim>\<open>cv::parallel_for_\<close>, declared in the header.  The spec: one matching job per
  pattern in the store, each running the candidate matcher against the same query
  descriptors and writing only its own result slot.  The jobs are run in index order.
\<close>

fun PatternMatch :: "cv_lib \<Rightarrow> Mat \<Rightarrow> nat list \<Rightarrow> PatternDetector \<Rightarrow> failure + PatternDetector" where
  "PatternMatch L queryDescriptors [] D = Inr D"
| "PatternMatch L queryDescriptors (i # idxs) D =
     (case findPatternMatch L D queryDescriptors (int i) of
        Inl e \<Rightarrow> Inl e
      | Inr D' \<Rightarrow> PatternMatch L queryDescriptors idxs D')"

subsection \<open>findPattern\<close>

text \<open>
  The selection loop ("Process results").  Its state is \<^verbatim>\<open>homographyFound\<close>,
  \<^verbatim>\<open>maxFound\<close> and \<^verbatim>\<open>maxFoundIdx\<close>; the list holds the values of the loop index.
  Vector sizes are natural numbers: the conversions between \<^verbatim>\<open>size_t\<close> and
  \<^verbatim>\<open>int\<close> are exact for vectors of fewer than \<open>2^31\<close> elements.
\<close>

fun selectLoop ::
  "bool list \<Rightarrow> DMatch list list \<Rightarrow> nat list \<Rightarrow> bool \<times> nat \<times> int \<Rightarrow>
   failure + (bool \<times> nat \<times> int)" where
  "selectLoop founds matches [] s = Inr s"
| "selectLoop founds matches (i # idxs) (homographyFound, maxFound, maxFoundIdx) =
     (if i < length founds
      then (if founds ! i
            then (if i < length matches
                  then (if maxFound < length (matches ! i)
                        then selectLoop founds matches idxs (True, length (matches ! i), int i)
                        else selectLoop founds matches idxs
                               (homographyFound, maxFound, maxFoundIdx))
                  else Inl OutOfRange)
            else selectLoop founds matches idxs (homographyFound, maxFound, maxFoundIdx))
      else Inl OutOfRange)"

text \<open>
  The first part of \<^verbatim>\<open>findPattern\<close>: gray conversion, feature extraction (its flag is
  not looked at), fresh result slots and the matching jobs.
\<close>

definition findPattern_match :: "cv_lib \<Rightarrow> PatternDetector \<Rightarrow> Mat \<Rightarrow> failure + PatternDetector" where
  "findPattern_match L D img =
     (let gray = getGray L img (m_grayImg D) in
      case extractFeatures L gray (m_queryDescriptors D) of
        Inl e \<Rightarrow> Inl e
      | Inr (_, kps, descs) \<Rightarrow>
          let n = length (m_patterns D);
              D1 = D\<lparr>m_grayImg := gray,
                     m_queryKeypoints := kps,
                     m_queryDescriptors := descs,
                     m_matches := replicate n [],
                     m_matches_homographyFound := replicate n False,
                     m_matches_homography := replicate n Mat_default\<rparr>
          in PatternMatch L descs [0..<n] D1)"

text \<open>The part after the selection, entered with \<^verbatim>\<open>homographyFound\<close> true.\<close>

definition findPattern_refine ::
  "cv_lib \<Rightarrow> PatternDetector \<Rightarrow> PatternTrackingInfo \<Rightarrow> int \<Rightarrow>
   failure + (bool \<times> PatternTrackingInfo \<times> PatternDetector)" where
  "findPattern_refine L D info maxFoundIdx =
     (case vec_at (m_matches_homography D) maxFoundIdx of
        Inl e \<Rightarrow> Inl e
      | Inr rough \<Rightarrow>
         (case vec_at (m_patterns D) maxFoundIdx of
            Inl e \<Rightarrow> Inl e
          | Inr pattern \<Rightarrow>
              let D2 = D\<lparr>m_roughHomography := rough, m_pattern := pattern\<rparr>;
                  info1 = info\<lparr>info_patternIdx := maxFoundIdx\<rparr>
              in if enableHomographyRefinement D2
                 then
                   let warped = cv_warpPerspective L (m_grayImg D2) rough (size_pat pattern);
                       D3 = D2\<lparr>m_warpedImg := warped\<rparr>
                   in case extractFeatures L warped Mat_default of
                        Inl e \<Rightarrow> Inl e
                      | Inr (_, warpedKeypoints, newQueryDescriptors) \<Rightarrow>
                         (case getMatches L D3 newQueryDescriptors maxFoundIdx of
                            Inl e \<Rightarrow> Inl e
                          | Inr refinedMatches \<Rightarrow>
                             (case refineMatchesWithHomography L warpedKeypoints
                                     (keypoints pattern) (homographyReprojectionThreshold D3)
                                     refinedMatches (m_refinedHomography D3) of
                                Inl e \<Rightarrow> Inl e
                              | Inr (homographyFound, _, refined) \<Rightarrow>
                                 (case Mat_product L rough refined of
                                    Inl e \<Rightarrow> Inl e
                                  | Inr H \<Rightarrow>
                                      Inr (homographyFound,
                                           info1\<lparr>info_homography := H,
                                                 info_points2d :=
                                                   cv_perspectiveTransform L
                                                     (points2d pattern) H\<rparr>,
                                           D3\<lparr>m_refinedHomography := refined\<rparr>))))
                 else
                   Inr (True,
                        info1\<lparr>info_homography := rough,
                              info_points2d :=
                                cv_perspectiveTransform L (points2d pattern) rough\<rparr>,
                        D2)))"

text \<open>
  \<^verbatim>\<open>findPattern\<close>: the returned flag, the output argument \<^verbatim>\<open>info\<close> and the
  detector's state after the call.
\<close>

definition findPattern ::
  "cv_lib \<Rightarrow> PatternDetector \<Rightarrow> Mat \<Rightarrow> PatternTrackingInfo \<Rightarrow>
   failure + (bool \<times> PatternTrackingInfo \<times> PatternDetector)" where
  "findPattern L D img info =
     (case findPattern_match L D img of
        Inl e \<Rightarrow> Inl e
      | Inr D1 \<Rightarrow>
         (case selectLoop (m_matches_homographyFound D1) (m_matches D1)
                 [0..<length (m_patterns D1)] (False, 0, - 1) of
            Inl e \<Rightarrow> Inl e
          | Inr (homographyFound, maxFound, maxFoundIdx) \<Rightarrow>
              if \<not> homographyFound then Inr (False, info, D1)
              else findPattern_refine L D1 info maxFoundIdx))"

subsection \<open>Notions used to state the properties\<close>

text \<open>The rectangle in the plane \<open>z = 0\<close> with corners \<open>(\<plusminus>a, \<plusminus>b, 0)\<close>, from \<open>(-a, -b)\<close> counter-clockwise.\<close>

definition rectangle3 :: "real \<Rightarrow> real \<Rightarrow> Point3f list" where
  "rectangle3 a b =
     [Point3f (Fin (- a)) (Fin (- b)) (Fin 0), Point3f (Fin a) (Fin (- b)) (Fin 0),
      Point3f (Fin a) (Fin b) (Fin 0), Point3f (Fin (- a)) (Fin b) (Fin 0)]"

text \<open>The Euclidean length of the segment between two points with finite coordinates.\<close>

fun edge_length :: "Point3f \<Rightarrow> Point3f \<Rightarrow> real option" where
  "edge_length (Point3f (Fin x1) (Fin y1) (Fin z1)) (Point3f (Fin x2) (Fin y2) (Fin z2)) =
     Some (sqrt ((x2 - x1)\<^sup>2 + (y2 - y1)\<^sup>2 + (z2 - z1)\<^sup>2))"
| "edge_length _ _ = None"

text \<open>The longest of the four sides of a quadrilateral given by its corners in order.\<close>

definition longest_side :: "Point3f list \<Rightarrow> real option" where
  "longest_side cs =
     (case cs of
        [c0, c1, c2, c3] \<Rightarrow>
          (case (edge_length c0 c1, edge_length c1 c2, edge_length c2 c3, edge_length c3 c0) of
             (Some a, Some b, Some c, Some d) \<Rightarrow> Some (max (max a b) (max c d))
           | _ \<Rightarrow> None)
      | _ \<Rightarrow> None)"

text \<open>Every match names a keypoint of the query and a keypoint of the pattern.\<close>

definition matchesInRange :: "KeyPoint list \<Rightarrow> KeyPoint list \<Rightarrow> DMatch list \<Rightarrow> bool" where
  "matchesInRange queryKeypoints trainKeypoints matches =
     list_all (\<lambda>m. 0 \<le> trainIdx m \<and> trainIdx m < int (length trainKeypoints) \<and>
                    0 \<le> queryIdx m \<and> queryIdx m < int (length queryKeypoints)) matches"

text \<open>The point lists that \<^verbatim>\<open>refineMatchesWithHomography\<close> hands to the estimator.\<close>

definition srcPointsOf :: "KeyPoint list \<Rightarrow> DMatch list \<Rightarrow> Point2f list" where
  "srcPointsOf trainKeypoints matches = map (\<lambda>m. pt (trainKeypoints ! nat (trainIdx m))) matches"

definition dstPointsOf :: "KeyPoint list \<Rightarrow> DMatch list \<Rightarrow> Point2f list" where
  "dstPointsOf queryKeypoints matches = map (\<lambda>m. pt (queryKeypoints ! nat (queryIdx m))) matches"

text \<open>The matches kept by an inlier mask.\<close>

definition maskedMatches :: "DMatch list \<Rightarrow> nat list \<Rightarrow> DMatch list" where
  "maskedMatches matches inliersMask = map fst (filter (\<lambda>(m, b). b \<noteq> 0) (zip matches inliersMask))"

subsection \<open>A small library instance and sample inputs\<close>

text \<open>
  An instance of the library record on which the functions above can be run: every
  non-zero pixel is a keypoint, the matcher pairs the query descriptor \<open>i\<close> with the
  trained descriptor \<open>i\<close> at distance 1 (runner-up at distance 4), the estimator returns
  the identity and counts a correspondence as an inlier when its two points coincide,
  warping and point transformation are the identity, and the matrix product is the
  product of row-major matrices.
\<close>

definition Mat_mul :: "Mat \<Rightarrow> Mat \<Rightarrow> Mat" where
  "Mat_mul A B =
     \<lparr>rows = rows A, cols = cols B, channels = 1,
      elems = concat (map (\<lambda>i. map (\<lambda>j.
                 sum_list (map (\<lambda>k. elems A ! (i * cols A + k) * elems B ! (k * cols B + j))
                            [0..<cols A])) [0..<cols B]) [0..<rows A])\<rparr>"

definition stub_knn :: "nat \<Rightarrow> DMatch list" where
  "stub_knn i =
     [\<lparr>queryIdx = int i, trainIdx = int i, imgIdx = 0, distance = Fin 1\<rparr>,
      \<lparr>queryIdx = int i, trainIdx = 0, imgIdx = 0, distance = Fin 4\<rparr>]"

definition cv_stub :: cv_lib where
  "cv_stub =
     \<lparr>cv_detect = (\<lambda>img. map (\<lambda>v. \<lparr>pt = Point2f (Fin v) (Fin 0)\<rparr>)
                              (filter (\<lambda>v. v \<noteq> 0) (elems img))),
      cv_compute = (\<lambda>img kps. (kps, \<lparr>rows = length kps, cols = 1, channels = 1,
                                       elems = replicate (length kps) 0\<rparr>)),
      cv_cvtColor = (\<lambda>code img. img\<lparr>channels := 1\<rparr>),
      cv_knnMatch = (\<lambda>trained query k. map stub_knn [0..<rows query]),
      cv_match = (\<lambda>trained query. map (\<lambda>i. hd (stub_knn i)) [0..<rows query]),
      cv_findHomography =
        (\<lambda>src dst thr. (Mat_eye3, map (\<lambda>(s, d). if s = d then 1 else 0) (zip src dst))),
      cv_warpPerspective = (\<lambda>img H sz. img),
      cv_perspectiveTransform = (\<lambda>pts H. pts),
      cv_matmul = Mat_mul\<rparr>"

text \<open>An 8-by-4 image with 26 non-zero pixels, a blank one, a 2-by-1 and a 3-by-1 image.\<close>

definition image_8x4 :: Mat where
  "image_8x4 = \<lparr>rows = 4, cols = 8, channels = 1, elems = map real [1..<27] @ replicate 6 0\<rparr>"

definition image_blank :: Mat where
  "image_blank = \<lparr>rows = 4, cols = 8, channels = 1, elems = replicate 32 0\<rparr>"

definition image_2x1 :: Mat where
  "image_2x1 = \<lparr>rows = 1, cols = 2, channels = 1, elems = [1, 2]\<rparr>"

definition image_3x1 :: Mat where
  "image_3x1 = \<lparr>rows = 1, cols = 3, channels = 1, elems = [1, 2, 3]\<rparr>"

definition info0 :: PatternTrackingInfo where
  "info0 = \<lparr>info_patternIdx = 0, info_homography = Mat_default, info_points2d = []\<rparr>"

text \<open>The 26 keypoints of the 8-by-4 image, their descriptor table and 26 matches.\<close>

definition keypoints_26 :: "KeyPoint list" where
  "keypoints_26 = cv_detect cv_stub image_8x4"

definition descriptors_26 :: Mat where
  "descriptors_26 = \<lparr>rows = 26, cols = 1, channels = 1, elems = replicate 26 0\<rparr>"

definition matches_26 :: "DMatch list" where
  "matches_26 = map (\<lambda>i. hd (stub_knn i)) [0..<26]"

text \<open>
  The pattern that \<^verbatim>\<open>buildPatternsFromImages\<close> builds from the 8-by-4 image, and a
  detector trained on it.
\<close>

definition pattern_8x4 :: Pattern where
  "pattern_8x4 =
     \<lparr>size_pat = (8, 4),
      points2d = [Point2f (Fin 0) (Fin 0), Point2f (Fin 8) (Fin 0),
                  Point2f (Fin 8) (Fin 4), Point2f (Fin 0) (Fin 4)],
      points3d = rectangle3 1 (1 / 2),
      keypoints = keypoints_26,
      descriptors = descriptors_26\<rparr>"

definition trained_8x4 :: "bool \<Rightarrow> PatternDetector" where
  "trained_8x4 ratioTest = train (PatternDetector_new ratioTest) [pattern_8x4]"

text \<open>The two nearest neighbours of a query descriptor that equals two trained descriptors.\<close>

definition best_zero :: DMatch where
  "best_zero = \<lparr>queryIdx = 0, trainIdx = 0, imgIdx = 0, distance = Fin 0\<rparr>"

definition better_zero :: DMatch where
  "better_zero = \<lparr>queryIdx = 0, trainIdx = 1, imgIdx = 0, distance = Fin 0\<rparr>"

text \<open>The same library, except that warping returns a blank image.\<close>

definition cv_blankwarp :: cv_lib where
  "cv_blankwarp = cv_stub\<lparr>cv_warpPerspective := (\<lambda>img H sz. image_blank)\<rparr>"

text \<open>
  The same library, except that warping returns an image whose 26 keypoints lie
  elsewhere than those of the 8-by-4 image.
\<close>

definition image_shifted :: Mat where
  "image_shifted =
     \<lparr>rows = 4, cols = 8, channels = 1, elems = map real [101..<127] @ replicate 6 0\<rparr>"

definition cv_shiftwarp :: cv_lib where
  "cv_shiftwarp = cv_stub\<lparr>cv_warpPerspective := (\<lambda>img H sz. image_shifted)\<rparr>"

text \<open>A detector trained on two copies of the pattern built from the 8-by-4 image.\<close>

definition trained_twice :: PatternDetector where
  "trained_twice = train (PatternDetector_new False) [pattern_8x4, pattern_8x4]"

text \<open>The detector's state after the matching jobs, and the outputs of a whole call.\<close>

definition after_match :: "cv_lib \<Rightarrow> PatternDetector \<Rightarrow> Mat \<Rightarrow> PatternDetector" where
  "after_match L D img = (case findPattern_match L D img of Inr D1 \<Rightarrow> D1 | Inl _ \<Rightarrow> D)"

definition after_findPattern :: "cv_lib \<Rightarrow> PatternDetector \<Rightarrow> Mat \<Rightarrow> PatternDetector" where
  "after_findPattern L D img =
     (case findPattern L D img info0 of Inr (_, _, D') \<Rightarrow> D' | Inl _ \<Rightarrow> D)"

definition info_findPattern :: "cv_lib \<Rightarrow> PatternDetector \<Rightarrow> Mat \<Rightarrow> PatternTrackingInfo" where
  "info_findPattern L D img =
     (case findPattern L D img info0 of Inr (_, info', _) \<Rightarrow> info' | Inl _ \<Rightarrow> info0)"

subsection \<open>Invariants\<close>

text \<open>
  The result slots of a detection call: three vectors of the same length \<open>n\<close>, and a
  slot marked as found holds more than 25 matches.
\<close>

definition slotsInv :: "PatternDetector \<Rightarrow> nat \<Rightarrow> bool" where
  "slotsInv D n =
     (length (m_matches D) = n \<and> length (m_matches_homography D) = n \<and>
      length (m_matches_homographyFound D) = n \<and>
      (\<forall>j<n. m_matches_homographyFound D ! j \<longrightarrow> 25 < length (m_matches D ! j)))"

text \<open>
  The invariant of the selection loop after the slots below \<open>k\<close>: the flag says whether
  a found slot was seen, \<open>maxFound\<close> bounds the match counts of the found slots seen,
  and the selected slot is the first one that reaches \<open>maxFound\<close>.
\<close>

definition selectInv :: "bool list \<Rightarrow> DMatch list list \<Rightarrow> nat \<Rightarrow> bool \<times> nat \<times> int \<Rightarrow> bool" where
  "selectInv founds matches k s =
     (case s of (homographyFound, maxFound, maxFoundIdx) \<Rightarrow>
        (homographyFound \<longleftrightarrow> (\<exists>i<k. founds ! i)) \<and>
        (\<forall>j<k. founds ! j \<longrightarrow> length (matches ! j) \<le> maxFound) \<and>
        (homographyFound \<longrightarrow>
           0 \<le> maxFoundIdx \<and> nat maxFoundIdx < k \<and> founds ! nat maxFoundIdx \<and>
           maxFound = length (matches ! nat maxFoundIdx) \<and>
           (\<forall>j<nat maxFoundIdx. founds ! j \<longrightarrow> length (matches ! j) < maxFound)) \<and>
        (\<not> homographyFound \<longrightarrow> maxFound = 0))"

section \<open>Properties\<close>

subsection \<open>Rounding to binary32\<close>

lemma rne_bounds: "\<bar>of_int (rne m) - m\<bar> \<le> 1 / 2"
  unfolding rne_def Let_def by (auto simp: abs_if) linarith+

lemma rne_of_int: "rne (of_int z) = z"
  by (simp add: rne_def)

lemma rne_le_int: "m \<le> of_int z \<Longrightarrow> rne m \<le> z"
  unfolding rne_def Let_def
  by (auto simp: floor_le_iff)

lemma rne_ge_int: "of_int z \<le> m \<Longrightarrow> z \<le> rne m"
  unfolding rne_def Let_def
  by (auto simp: le_floor_iff) linarith+


lemma normalise_up:
  assumes "0 < m" and "m < 2 ^ 24"
    and "j \<le> k" and "2 ^ 23 \<le> m * 2 ^ j" and "1 / 2 ^ 149 \<le> s / 2 ^ j"
  shows "\<exists>i\<le>j. normalise k m s = (m * 2 ^ i, s / 2 ^ i) \<and>
                2 ^ 23 \<le> m * 2 ^ i \<and> m * 2 ^ i < 2 ^ 24"
  using assms
proof (induction k arbitrary: m s j)
  case 0
  then show ?case by simp
next
  case (Suc k)
  show ?case
  proof (cases "2 ^ 23 \<le> m")
    case True
    with Suc.prems show ?thesis by (intro exI[of _ 0]) simp
  next
    case False
    then have "j \<noteq> 0" using Suc.prems(4) by (cases j) auto
    then obtain j0 where j: "j = Suc j0" by (cases j) auto
    have "0 < (1::real) / 2 ^ 149" by simp
    then have "0 < s / 2 ^ j" using Suc.prems(5) by linarith
    then have s: "0 < s" by (simp add: zero_less_divide_iff)
    have guard: "1 / 2 ^ 149 < s"
    proof -
      have "(1::real) \<le> 2 ^ j0" by simp
      then have "s / 2 ^ j \<le> s / 2" using s unfolding j by (simp add: field_simps)
      with Suc.prems(5) s show ?thesis by linarith
    qed
    have ih: "\<exists>i\<le>j0. normalise k (2 * m) (s / 2) = (2 * m * 2 ^ i, s / 2 / 2 ^ i) \<and>
                2 ^ 23 \<le> 2 * m * 2 ^ i \<and> 2 * m * 2 ^ i < 2 ^ 24"
      using Suc.prems False unfolding j
      by (intro Suc.IH) (simp_all add: field_simps)
    then obtain i where i: "i \<le> j0"
      "normalise k (2 * m) (s / 2) = (2 * m * 2 ^ i, s / 2 / 2 ^ i)"
      "2 ^ 23 \<le> 2 * m * 2 ^ i" "2 * m * 2 ^ i < 2 ^ 24" by blast
    show ?thesis
      using i False guard Suc.prems(2) unfolding j
      by (intro exI[of _ "Suc i"]) (simp add: field_simps)
  qed
qed


lemma normalise_down:
  assumes "2 ^ 23 \<le> m" and "m < 2 ^ 24 * 2 ^ j" and "j \<le> k"
  shows "\<exists>i\<le>j. normalise k m s = (m / 2 ^ i, s * 2 ^ i) \<and>
                2 ^ 23 \<le> m / 2 ^ i \<and> m / 2 ^ i < 2 ^ 24"
  using assms
proof (induction k arbitrary: m s j)
  case 0
  then show ?case by simp
next
  case (Suc k)
  show ?case
  proof (cases "2 ^ 24 \<le> m")
    case False
    with Suc.prems(1) show ?thesis by (intro exI[of _ 0]) simp
  next
    case True
    then have "j \<noteq> 0" using Suc.prems(2) by (cases j) auto
    then obtain j0 where j: "j = Suc j0" by (cases j) auto
    have "\<exists>i\<le>j0. normalise k (m / 2) (2 * s) = (m / 2 / 2 ^ i, 2 * s * 2 ^ i) \<and>
                2 ^ 23 \<le> m / 2 / 2 ^ i \<and> m / 2 / 2 ^ i < 2 ^ 24"
      using Suc.prems True unfolding j by (intro Suc.IH) simp_all
    then obtain i where i: "i \<le> j0"
      "normalise k (m / 2) (2 * s) = (m / 2 / 2 ^ i, 2 * s * 2 ^ i)"
      "2 ^ 23 \<le> m / 2 / 2 ^ i" "m / 2 / 2 ^ i < 2 ^ 24" by blast
    show ?thesis
      using i True unfolding j
      by (intro exI[of _ "Suc i"]) (simp add: field_simps)
  qed
qed

text \<open>
  The value that \<open>round32\<close> returns for a positive real with a normalised significand:
  it lies between the scaled integer bounds of the significand and within half a unit
  in the last place, which is a relative error of at most \<open>2^-24\<close>.
\<close>

lemma round32_normalised:
  assumes "0 < x" and "normalise 400 x 1 = (m, s)" and "m * s = x" and "0 < s"
    and "2 ^ 23 \<le> m" and "of_int zlo \<le> m" and "m \<le> of_int zhi"
    and "of_int zhi * s < 2 ^ 128"
  shows "\<exists>v. round32 x = Fin v \<and> of_int zlo * s \<le> v \<and> v \<le> of_int zhi * s \<and>
             \<bar>v - x\<bar> \<le> x / 2 ^ 24"
proof -
  define z where "z = rne m"
  define v where "v = of_int z * s"
  have "zlo \<le> z" unfolding z_def using assms(6) by (rule rne_ge_int)
  then have "real_of_int zlo \<le> real_of_int z" by (simp only: of_int_le_iff)
  then have lo: "of_int zlo * s \<le> v" unfolding v_def using assms(4) by (simp add: mult_right_mono)
  have "z \<le> zhi" unfolding z_def using assms(7) by (rule rne_le_int)
  then have "real_of_int z \<le> real_of_int zhi" by (simp only: of_int_le_iff)
  then have hi: "v \<le> of_int zhi * s" unfolding v_def using assms(4) by (simp add: mult_right_mono)
  have half: "\<bar>of_int z - m\<bar> \<le> 1 / 2" unfolding z_def by (rule rne_bounds)
  have "v - x = (of_int z - m) * s" using assms(3) by (simp add: v_def left_diff_distrib)
  then have "\<bar>v - x\<bar> = \<bar>of_int z - m\<bar> * s" using assms(4) by (simp add: abs_mult)
  also have "\<dots> \<le> 1 / 2 * s" using half assms(4) by (intro mult_right_mono) simp_all
  also have "\<dots> \<le> m * s / 2 ^ 24"
  proof -
    have "2 ^ 23 * s \<le> m * s" using assms(4,5) by (intro mult_right_mono) simp_all
    then show ?thesis by simp
  qed
  finally have err: "\<bar>v - x\<bar> \<le> x / 2 ^ 24" using assms(3) by simp
  have "v < 2 ^ 128" using hi assms(8) by linarith
  then have "round32 x = Fin v"
    using assms(1,2) by (simp add: round32_def v_def z_def)
  with lo hi err show ?thesis by blast
qed

lemma round32_unit:
  assumes "1 / 2 ^ 126 \<le> t" and "t \<le> 1"
  shows "\<exists>r. round32 t = Fin r \<and> 0 < r \<and> r \<le> 1 \<and> \<bar>r - t\<bar> \<le> t / 2 ^ 24"
proof -
  have "0 < (1::real) / 2 ^ 126" by simp
  then have t0: "0 < t" using assms(1) by linarith
  have "\<exists>i\<le>149. normalise 400 t 1 = (t * 2 ^ i, 1 / 2 ^ i) \<and>
                2 ^ 23 \<le> t * 2 ^ i \<and> t * 2 ^ i < 2 ^ 24"
    using t0 assms by (intro normalise_up) (simp_all add: field_simps)
  then obtain i where n: "normalise 400 t 1 = (t * 2 ^ i, 1 / 2 ^ i)"
    and lo: "2 ^ 23 \<le> t * 2 ^ i" by blast
  have a: "of_int (2 ^ 23) \<le> t * 2 ^ i" using lo by simp
  have b: "t * 2 ^ i \<le> of_int (2 ^ i)" using assms(2) by (simp add: mult_le_cancel_right1)
  have c: "real_of_int (2 ^ i) * (1 / 2 ^ i) < 2 ^ 128" by simp
  from round32_normalised[OF t0 n _ _ lo a b c]
  obtain v where v: "round32 t = Fin v" "of_int (2 ^ 23) * (1 / 2 ^ i) \<le> v"
    "v \<le> of_int (2 ^ i) * (1 / 2 ^ i)" "\<bar>v - t\<bar> \<le> t / 2 ^ 24" by auto
  have "(0::real) < of_int (2 ^ 23) * (1 / 2 ^ i)" by simp
  then have "0 < v" using v(2) by linarith
  moreover have "v \<le> 1" using v(3) by simp
  ultimately show ?thesis using v(1,4) by blast
qed

text \<open>The conversion of a positive \<^verbatim>\<open>int\<close>: exact below \<open>2^24\<close>, rounded above.\<close>

lemma round32_int_range:
  assumes "1 \<le> x" and "x < 2 ^ 31"
  shows "\<exists>v. round32 x = Fin v \<and> 1 \<le> v \<and> v \<le> 2 ^ 31 \<and> \<bar>v - x\<bar> \<le> x / 2 ^ 24"
proof (cases "x < 2 ^ 24")
  case True
  have x0: "0 < x" using assms(1) by linarith
  have "\<exists>i\<le>23. normalise 400 x 1 = (x * 2 ^ i, 1 / 2 ^ i) \<and>
                2 ^ 23 \<le> x * 2 ^ i \<and> x * 2 ^ i < 2 ^ 24"
    using x0 True assms(1) by (intro normalise_up) simp_all
  then obtain i where n: "normalise 400 x 1 = (x * 2 ^ i, 1 / 2 ^ i)"
    and lo: "2 ^ 23 \<le> x * 2 ^ i" by blast
  have a: "of_int (2 ^ i) \<le> x * 2 ^ i" using assms(1) by simp
  have b: "x * 2 ^ i \<le> of_int (2 ^ 31 * 2 ^ i)" using assms(2) by simp
  have c: "real_of_int (2 ^ 31 * 2 ^ i) * (1 / 2 ^ i) < 2 ^ 128" by simp
  from round32_normalised[OF x0 n _ _ lo a b c]
  obtain v where v: "round32 x = Fin v" "of_int (2 ^ i) * (1 / 2 ^ i) \<le> v"
    "v \<le> of_int (2 ^ 31 * 2 ^ i) * (1 / 2 ^ i)" "\<bar>v - x\<bar> \<le> x / 2 ^ 24" by auto
  have "1 \<le> v" using v(2) by simp
  moreover have "v \<le> 2 ^ 31" using v(3) by simp
  ultimately show ?thesis using v(1,4) by blast
next
  case False
  have x0: "0 < x" using assms(1) by linarith
  have "\<exists>i\<le>7. normalise 400 x 1 = (x / 2 ^ i, 1 * 2 ^ i) \<and>
                2 ^ 23 \<le> x / 2 ^ i \<and> x / 2 ^ i < 2 ^ 24"
    using False assms(2) by (intro normalise_down) simp_all
  then obtain i where i: "i \<le> 7" and n: "normalise 400 x 1 = (x / 2 ^ i, 1 * 2 ^ i)"
    and lo: "2 ^ 23 \<le> x / 2 ^ i" by blast
  have a: "of_int (2 ^ 23) \<le> x / 2 ^ i" using lo by simp
  define P :: real where "P = 2 ^ (31 - i)"
  define Q :: real where "Q = 2 ^ i"
  have Q0: "0 < Q" by (simp add: Q_def)
  have PQ: "P * Q = 2 ^ 31" unfolding P_def Q_def using i by (simp flip: power_add)
  have "x \<le> P * Q" using assms(2) PQ by simp
  then have "x / Q \<le> P" using Q0 by (simp add: pos_divide_le_eq)
  then have b: "x / 2 ^ i \<le> of_int (2 ^ (31 - i))" by (simp add: P_def Q_def)
  have top: "real_of_int (2 ^ (31 - i)) * (1 * 2 ^ i) = 2 ^ 31"
    using PQ by (simp add: P_def Q_def)
  then have c: "real_of_int (2 ^ (31 - i)) * (1 * 2 ^ i) < 2 ^ 128" by simp
  from round32_normalised[OF x0 n _ _ lo a b c]
  obtain v where v: "round32 x = Fin v" "of_int (2 ^ 23) * (1 * 2 ^ i) \<le> v"
    "v \<le> of_int (2 ^ (31 - i)) * (1 * 2 ^ i)" "\<bar>v - x\<bar> \<le> x / 2 ^ 24" by auto
  have "(1::real) \<le> of_int (2 ^ 23) * (1 * 2 ^ i)"
    by (simp add: mult_ge1_I) 
  then have "1 \<le> v" using v(2) by linarith
  moreover have "v \<le> 2 ^ 31" using v(3) top by linarith
  ultimately show ?thesis using v(1,4) by blast
qed

lemma round32_nat:
  assumes "0 < n" and "n < 2 ^ 24"
  shows "round32 (real n) = Fin (real n)"
proof -
  have "real n < real (2 ^ 24)" using assms(2) by (simp only: of_nat_less_iff)
  then have n24: "real n < 2 ^ 24" by simp
  have "\<exists>i\<le>23. normalise 400 (real n) 1 = (real n * 2 ^ i, 1 / 2 ^ i) \<and>
                2 ^ 23 \<le> real n * 2 ^ i \<and> real n * 2 ^ i < 2 ^ 24"
  proof (intro normalise_up)
    show "2 ^ 23 \<le> real n * 2 ^ 23" using assms(1) by simp
    show "real n < 2 ^ 24" by (rule n24)
  qed (use assms in simp_all)
  then obtain i where n: "normalise 400 (real n) 1 = (real n * 2 ^ i, 1 / 2 ^ i)" by blast
  have "real n * 2 ^ i = of_int (int n * 2 ^ i)" by simp
  then have z: "rne (real n * 2 ^ i) = int n * 2 ^ i" by (simp only: rne_of_int)
  have "(2::real) ^ 24 < 2 ^ 128" by simp
  then have "real n < 2 ^ 128" using n24 by linarith
  then show ?thesis
    using assms(1) n z by (simp add: round32_def)
qed

lemma round32_not_nan: "round32 x \<noteq> NaN"
  by (simp add: round32_def Let_def split: prod.splits)

lemma float_of_nat_exact:
  assumes "0 < n" and "n \<le> 2 ^ 24"
  shows "float_of_nat n = Fin (real n)"
proof (cases "n < 2 ^ 24")
  case True
  with assms(1) show ?thesis by (simp add: float_of_nat_def round32_nat)
next
  case False
  with assms(2) have "n = 2 ^ 24" by simp
  then have n: "real n = 16777216" by simp
  have "round32 16777216 = Fin 16777216" by code_simp
  then show ?thesis by (simp add: float_of_nat_def n)
qed

lemma float_of_nat_range:
  assumes "0 < n" and "n < 2 ^ 31"
  shows "\<exists>v. float_of_nat n = Fin v \<and> 1 \<le> v \<and> v \<le> 2 ^ 31 \<and>
             \<bar>v - real n\<bar> \<le> real n / 2 ^ 24 \<and> (n \<le> 2 ^ 24 \<longrightarrow> v = real n)"
proof -
  have "real n < real (2 ^ 31)" using assms(2) by (simp only: of_nat_less_iff)
  then have "real n < 2 ^ 31" by simp
  moreover have "1 \<le> real n" using assms(1) by simp
  ultimately obtain v where v: "round32 (real n) = Fin v" "1 \<le> v" "v \<le> 2 ^ 31"
    "\<bar>v - real n\<bar> \<le> real n / 2 ^ 24"
    using round32_int_range by blast
  have "n \<le> 2 ^ 24 \<longrightarrow> v = real n"
    using float_of_nat_exact[OF assms(1)] v(1) by (auto simp: float_of_nat_def)
  with v show ?thesis by (auto simp: float_of_nat_def)
qed

text \<open>
  The two normalised dimensions of \<^verbatim>\<open>buildPatternsFromImages\<close>: the larger is exactly
  1 and the smaller is the rounded quotient.
\<close>

lemma unit_dimensions:
  assumes "1 \<le> w" and "1 \<le> h" and "w \<le> 2 ^ 31" and "h \<le> 2 ^ 31"
  shows "\<exists>a b. fdiv (Fin w) (fmax (Fin w) (Fin h)) = Fin a \<and>
               fdiv (Fin h) (fmax (Fin w) (Fin h)) = Fin b \<and>
               0 < a \<and> 0 < b \<and> max a b = 1 \<and>
               \<bar>a * h - b * w\<bar> \<le> min w h / 2 ^ 24"
proof -
  have one: "round32 1 = Fin 1" using round32_nat[of 1] by simp
  have small: "(1::real) / 2 ^ 126 \<le> 1 / 2 ^ 31" by simp
  show ?thesis
  proof (cases "w < h")
    case True
    define t where "t = w / h"
    have "1 / 2 ^ 31 \<le> t" "t \<le> 1"
      using assms True by (simp_all add: t_def field_simps)
    then have t: "1 / 2 ^ 126 \<le> t" "t \<le> 1" using small by linarith+
    from round32_unit[OF t] obtain r where r: "round32 t = Fin r" "0 < r" "r \<le> 1"
      "\<bar>r - t\<bar> \<le> t / 2 ^ 24" by blast
    have "r * h - w = (r - t) * h" using assms by (simp add: t_def field_simps)
    then have "\<bar>r * h - w\<bar> = \<bar>r - t\<bar> * h" using assms by (simp add: abs_mult)
    also have "\<dots> \<le> t / 2 ^ 24 * h" using r(4) assms by (intro mult_right_mono) simp_all
    also have "\<dots> = w / 2 ^ 24" using assms by (simp add: t_def)
    finally have "\<bar>r * h - w\<bar> \<le> w / 2 ^ 24" .
    moreover have "min w h = w" using True by simp
    ultimately have "\<bar>r * h - 1 * w\<bar> \<le> min w h / 2 ^ 24" by simp
    moreover have "fdiv (Fin w) (fmax (Fin w) (Fin h)) = Fin r"
      "fdiv (Fin h) (fmax (Fin w) (Fin h)) = Fin 1"
      using True assms r(1) one by (simp_all add: fmax_def t_def)
    moreover have "max r 1 = 1" using r(3) by simp
    ultimately show ?thesis using r(2) by (intro exI[of _ r] exI[of _ 1]) simp
  next
    case False
    define t where "t = h / w"
    have "1 / 2 ^ 31 \<le> t" "t \<le> 1"
      using assms False by (simp_all add: t_def field_simps)
    then have t: "1 / 2 ^ 126 \<le> t" "t \<le> 1" using small by linarith+
    from round32_unit[OF t] obtain r where r: "round32 t = Fin r" "0 < r" "r \<le> 1"
      "\<bar>r - t\<bar> \<le> t / 2 ^ 24" by blast
    have "h - r * w = (t - r) * w" using assms by (simp add: t_def field_simps)
    then have "\<bar>h - r * w\<bar> = \<bar>r - t\<bar> * w"
      using assms by (simp add: abs_mult abs_minus_commute)
    also have "\<dots> \<le> t / 2 ^ 24 * w" using r(4) assms by (intro mult_right_mono) simp_all
    also have "\<dots> = h / 2 ^ 24" using assms by (simp add: t_def)
    finally have "\<bar>h - r * w\<bar> \<le> h / 2 ^ 24" .
    moreover have "min w h = h" using False by simp
    ultimately have "\<bar>1 * h - r * w\<bar> \<le> min w h / 2 ^ 24" by simp
    moreover have "fdiv (Fin w) (fmax (Fin w) (Fin h)) = Fin 1"
      "fdiv (Fin h) (fmax (Fin w) (Fin h)) = Fin r"
      using False assms r(1) one by (simp_all add: fmax_def t_def)
    moreover have "max 1 r = 1" using r(3) by simp
    ultimately show ?thesis using r(2) by (intro exI[of _ 1] exI[of _ r]) simp
  qed
qed

subsection \<open>The normalised corners of a pattern\<close>

lemma sqrt_four_times_square: "0 \<le> a \<Longrightarrow> sqrt (4 * a\<^sup>2) = 2 * a"
  by (simp add: real_sqrt_mult)

lemma longest_side_rectangle3:
  "0 \<le> a \<Longrightarrow> 0 \<le> b \<Longrightarrow> longest_side (rectangle3 a b) = Some (max (2 * a) (2 * b))"
  by (simp add: longest_side_def rectangle3_def sqrt_four_times_square)

lemma buildPattern_points3d:
  assumes "buildPattern L img = Inr p" and "0 < cols img" and "0 < rows img"
    and "cols img < 2 ^ 31" and "rows img < 2 ^ 31"
  shows "\<exists>w h a b.
           float_of_nat (cols img) = Fin w \<and> float_of_nat (rows img) = Fin h \<and>
           \<bar>w - real (cols img)\<bar> \<le> real (cols img) / 2 ^ 24 \<and>
           \<bar>h - real (rows img)\<bar> \<le> real (rows img) / 2 ^ 24 \<and>
           (cols img \<le> 2 ^ 24 \<longrightarrow> w = real (cols img)) \<and>
           (rows img \<le> 2 ^ 24 \<longrightarrow> h = real (rows img)) \<and>
           points3d p = rectangle3 a b \<and> 0 < a \<and> 0 < b \<and> max a b = 1 \<and>
           \<bar>a * h - b * w\<bar> \<le> min w h / 2 ^ 24"
proof -
  from float_of_nat_range[OF assms(2,4)] obtain w where
    w: "float_of_nat (cols img) = Fin w" "1 \<le> w" "w \<le> 2 ^ 31"
      "\<bar>w - real (cols img)\<bar> \<le> real (cols img) / 2 ^ 24"
      "cols img \<le> 2 ^ 24 \<longrightarrow> w = real (cols img)" by blast
  from float_of_nat_range[OF assms(3,5)] obtain h where
    h: "float_of_nat (rows img) = Fin h" "1 \<le> h" "h \<le> 2 ^ 31"
      "\<bar>h - real (rows img)\<bar> \<le> real (rows img) / 2 ^ 24"
      "rows img \<le> 2 ^ 24 \<longrightarrow> h = real (rows img)" by blast
  from unit_dimensions[OF w(2) h(2) w(3) h(3)] obtain a b where
    ab: "fdiv (Fin w) (fmax (Fin w) (Fin h)) = Fin a"
      "fdiv (Fin h) (fmax (Fin w) (Fin h)) = Fin b"
    and props: "0 < a" "0 < b" "max a b = 1" "\<bar>a * h - b * w\<bar> \<le> min w h / 2 ^ 24"
    by blast
  have "points3d p = rectangle3 a b"
    using assms(1) ab
    by (auto simp: buildPattern_def Let_def w(1) h(1) rectangle3_def
             split: sum.splits prod.splits)
  with w h props show ?thesis by blast
qed

lemma buildLoop_nth:
  "buildLoop L images acc = Inr patterns \<Longrightarrow>
   length patterns = length acc + length images \<and>
   (\<forall>i < length images. buildPattern L (images ! i) = Inr (patterns ! (length acc + i)))
   \<and> (\<forall>i < length acc. patterns ! i = acc ! i)"
proof (induction images arbitrary: acc)
  case Nil
  then show ?case by simp
next
  case (Cons img images)
  then obtain p where p: "buildPattern L img = Inr p"
    and rest: "buildLoop L images (acc @ [p]) = Inr patterns"
    by (auto split: sum.splits)
  from Cons.IH[OF rest] show ?case using p
    by (auto simp: nth_Cons nth_append split: nat.splits)
qed

lemma buildPatternsFromImages_nth:
  assumes "buildPatternsFromImages L images = Inr patterns" and "i < length images"
  shows "buildPattern L (images ! i) = Inr (patterns ! i)"
  using buildLoop_nth[of L images "[]" patterns] assms
  by (simp add: buildPatternsFromImages_def)

lemma build_2x1:
  "buildPatternsFromImages cv_stub [image_2x1] =
   Inr [\<lparr>size_pat = (2, 1),
         points2d = [Point2f (Fin 0) (Fin 0), Point2f (Fin 2) (Fin 0),
                     Point2f (Fin 2) (Fin 1), Point2f (Fin 0) (Fin 1)],
         points3d = rectangle3 1 (1 / 2),
         keypoints = [\<lparr>pt = Point2f (Fin 1) (Fin 0)\<rparr>, \<lparr>pt = Point2f (Fin 2) (Fin 0)\<rparr>],
         descriptors = \<lparr>rows = 2, cols = 1, channels = 1, elems = [0, 0]\<rparr>\<rparr>]"
  by code_simp

lemma build_8x4: "buildPatternsFromImages cv_stub [image_8x4] = Inr [pattern_8x4]"
  by code_simp

lemma build_3x1:
  "buildPatternsFromImages cv_stub [image_3x1] =
   Inr [\<lparr>size_pat = (3, 1),
         points2d = [Point2f (Fin 0) (Fin 0), Point2f (Fin 3) (Fin 0),
                     Point2f (Fin 3) (Fin 1), Point2f (Fin 0) (Fin 1)],
         points3d = rectangle3 1 (11184811 / 33554432),
         keypoints = [\<lparr>pt = Point2f (Fin 1) (Fin 0)\<rparr>, \<lparr>pt = Point2f (Fin 2) (Fin 0)\<rparr>,
                      \<lparr>pt = Point2f (Fin 3) (Fin 0)\<rparr>],
         descriptors = \<lparr>rows = 3, cols = 1, channels = 1, elems = [0, 0, 0]\<rparr>\<rparr>]"
  by code_simp

text \<open>
  Claim C1, as the code has it.  Whenever \<^verbatim>\<open>buildPatternsFromImages\<close> returns, the
  pattern built from an image of \<open>cols\<close> columns and \<open>rows\<close> rows (positive values of
  the type \<^verbatim>\<open>int\<close>) has as \<open>points3d\<close> the four corners \<open>(\<plusminus>a, \<plusminus>b, 0)\<close> of a rectangle in
  the plane \<open>z = 0\<close> centred at the origin.  The larger of the half-extents \<open>a\<close> and \<open>b\<close>
  is exactly 1, so the longest side of the rectangle has length 2, not 1.  With \<open>w\<close> and
  \<open>h\<close> the dimensions converted to \<^verbatim>\<open>float\<close> (equal to \<open>cols\<close> and \<open>rows\<close> up to \<open>2^24\<close>,
  within a relative error of \<open>2^-24\<close> above), the half-extents are \<open>w / max w h\<close> and
  \<open>h / max w h\<close> rounded to binary32, so the aspect ratio \<open>a / b\<close> is \<open>w / h\<close> up to that
  rounding: \<open>\<bar>a * h - b * w\<bar> \<le> min w h / 2^24\<close>.  It is not \<open>w / h\<close> exactly: for a 3-by-1
  image \<open>b\<close> is \<open>11184811 / 33554432\<close> (\<open>build_3x1\<close>).
\<close>

theorem buildPatternsFromImages_points3d:
  assumes "buildPatternsFromImages L images = Inr patterns"
    and "i < length images"
    and "0 < cols (images ! i)" and "0 < rows (images ! i)"
    and "cols (images ! i) < 2 ^ 31" and "rows (images ! i) < 2 ^ 31"
  shows "\<exists>w h a b.
           float_of_nat (cols (images ! i)) = Fin w \<and>
           float_of_nat (rows (images ! i)) = Fin h \<and>
           \<bar>w - real (cols (images ! i))\<bar> \<le> real (cols (images ! i)) / 2 ^ 24 \<and>
           \<bar>h - real (rows (images ! i))\<bar> \<le> real (rows (images ! i)) / 2 ^ 24 \<and>
           (cols (images ! i) \<le> 2 ^ 24 \<longrightarrow> w = real (cols (images ! i))) \<and>
           (rows (images ! i) \<le> 2 ^ 24 \<longrightarrow> h = real (rows (images ! i))) \<and>
           0 < a \<and> 0 < b \<and>
           points3d (patterns ! i) = rectangle3 a b \<and>
           max a b = 1 \<and>
           \<bar>a * h - b * w\<bar> \<le> min w h / 2 ^ 24 \<and>
           longest_side (points3d (patterns ! i)) = Some 2"
proof -
  from buildPattern_points3d[OF buildPatternsFromImages_nth[OF assms(1,2)] assms(3-6)]
  obtain w h a b where
    conv: "float_of_nat (cols (images ! i)) = Fin w"
      "float_of_nat (rows (images ! i)) = Fin h"
      "\<bar>w - real (cols (images ! i))\<bar> \<le> real (cols (images ! i)) / 2 ^ 24"
      "\<bar>h - real (rows (images ! i))\<bar> \<le> real (rows (images ! i)) / 2 ^ 24"
      "cols (images ! i) \<le> 2 ^ 24 \<longrightarrow> w = real (cols (images ! i))"
      "rows (images ! i) \<le> 2 ^ 24 \<longrightarrow> h = real (rows (images ! i))"
    and shape: "points3d (patterns ! i) = rectangle3 a b"
    and pos: "0 < a" "0 < b" and one: "max a b = 1"
    and ratio: "\<bar>a * h - b * w\<bar> \<le> min w h / 2 ^ 24"
    by blast
  have "max (2 * a) (2 * b) = 2" using one by linarith
  then have "longest_side (rectangle3 a b) = Some 2"
    using longest_side_rectangle3[of a b] pos by simp
  then have "longest_side (points3d (patterns ! i)) = Some 2" by (simp add: shape)
  with conv shape pos one ratio show ?thesis by blast
qed

text \<open>The theorem at the 2-by-1 image: the corners are \<open>(\<plusminus>1, \<plusminus>1/2, 0)\<close>.\<close>

theorem buildPatternsFromImages_points3d_witness:
  "longest_side
     (points3d ((case buildPatternsFromImages cv_stub [image_2x1] of
                   Inr ps \<Rightarrow> ps | Inl _ \<Rightarrow> []) ! 0))
   = Some 2"
proof -
  have "0 < length [image_2x1]" "0 < cols ([image_2x1] ! 0)" "0 < rows ([image_2x1] ! 0)"
    "cols ([image_2x1] ! 0) < 2 ^ 31" "rows ([image_2x1] ! 0) < 2 ^ 31"
    by (simp_all add: image_2x1_def)
  from buildPatternsFromImages_points3d[OF build_2x1 this]
  show ?thesis by (auto simp: build_2x1)
qed

text \<open>
  Claim C1 as stated fails: for the 2-by-1 image the longest side of the rectangle is
  not 1.
\<close>

theorem longest_side_one_counterexample:
  "longest_side
     (points3d ((case buildPatternsFromImages cv_stub [image_2x1] of
                   Inr ps \<Rightarrow> ps | Inl _ \<Rightarrow> []) ! 0))
   \<noteq> Some 1"
  using longest_side_rectangle3[of 1 "1 / 2"]
  by (simp add: build_2x1)

subsection \<open>Robust homography estimation\<close>

lemma pointsLoop_in_range:
  "matchesInRange qk tk ms \<Longrightarrow> pointsLoop qk tk ms = Inr (srcPointsOf tk ms, dstPointsOf qk ms)"
  by (induction ms) (simp_all add: matchesInRange_def srcPointsOf_def dstPointsOf_def vec_at_def)

lemma inliersLoop_masked:
  "i + length msk \<le> length ms \<Longrightarrow>
   inliersLoop msk ms i acc = Inr (acc @ maskedMatches (drop i ms) msk)"
proof (induction msk arbitrary: i acc)
  case Nil
  then show ?case by (simp add: maskedMatches_def)
next
  case (Cons b msk)
  then have i: "i < length ms" and rest: "Suc i + length msk \<le> length ms" by simp_all
  have d: "drop i ms = ms ! i # drop (Suc i) ms" using i by (simp add: Cons_nth_drop_Suc)
  show ?case using Cons.IH[OF rest] i by (simp add: d maskedMatches_def)
qed

lemma subseq_maskedMatches: "subseq (maskedMatches ms msk) ms"
proof (induction ms arbitrary: msk)
  case Nil
  then show ?case by (simp add: maskedMatches_def)
next
  case (Cons m ms)
  then show ?case
    by (cases msk) (auto simp: maskedMatches_def)
qed

lemma length_maskedMatches: "length (maskedMatches ms msk) \<le> length ms"
  using subseq_maskedMatches list_emb_length by blast

lemma refine_post:
  "refineMatchesWithHomography L qk tk thr ms H0 = Inr (found, ms', H) \<Longrightarrow>
   found \<longrightarrow> 25 < length ms'"
  by (auto simp: refineMatchesWithHomography_def minNumberMatchesAllowed_def Let_def
           split: if_splits sum.splits prod.splits)

text \<open>
  Claim C5.  With fewer than 25 correspondences \<^verbatim>\<open>refineMatchesWithHomography\<close>
  returns false and leaves the match list as it was: the same elements in the same
  order (the homography argument is not written either).
\<close>

theorem refine_too_few:
  "length matches < 25 \<Longrightarrow>
   refineMatchesWithHomography L queryKeypoints trainKeypoints reprojectionThreshold matches H0
     = Inr (False, matches, H0)"
  by (simp add: refineMatchesWithHomography_def minNumberMatchesAllowed_def)

text \<open>
  The theorem at a list of 24 matches.
\<close>

theorem refine_too_few_witness:
  "refineMatchesWithHomography cv_stub [] [] (Fin 3) (map (\<lambda>i. hd (stub_knn i)) [0..<24]) Mat_default
     = Inr (False, map (\<lambda>i. hd (stub_knn i)) [0..<24], Mat_default)"
  using refine_too_few[of "map (\<lambda>i. hd (stub_knn i)) [0..<24]" cv_stub "[]" "[]" "Fin 3" Mat_default]
  by simp

text \<open>
  Claim C6.  With at least 25 correspondences whose indices name keypoints, and an
  inlier mask as long as the match list, \<^verbatim>\<open>refineMatchesWithHomography\<close> replaces the
  match list by the matches whose mask entry is non-zero, in their order: a subsequence
  of the input, so never longer than it.  The returned flag is true exactly when more
  than 25 matches are kept; the homography is the estimator's, or the identity when the
  estimator returned an empty matrix.
\<close>

theorem refine_inliers:
  assumes "25 \<le> length matches"
    and "matchesInRange queryKeypoints trainKeypoints matches"
    and "cv_findHomography L (srcPointsOf trainKeypoints matches)
           (dstPointsOf queryKeypoints matches) reprojectionThreshold = (H, inliersMask)"
    and "length inliersMask = length matches"
  shows "refineMatchesWithHomography L queryKeypoints trainKeypoints reprojectionThreshold
           matches H0
         = Inr (25 < length (maskedMatches matches inliersMask),
                maskedMatches matches inliersMask,
                if Mat_empty H then Mat_eye3 else H)
         \<and> subseq (maskedMatches matches inliersMask) matches
         \<and> length (maskedMatches matches inliersMask) \<le> length matches"
proof -
  have "inliersLoop inliersMask matches 0 [] = Inr (maskedMatches matches inliersMask)"
    using inliersLoop_masked[of 0 inliersMask matches "[]"] assms(4) by simp
  then show ?thesis
    using assms(1,3) pointsLoop_in_range[OF assms(2)]
    by (simp add: refineMatchesWithHomography_def minNumberMatchesAllowed_def
                  subseq_maskedMatches length_maskedMatches)
qed

text \<open>
  The theorem at 26 matches between the keypoints of the 8-by-4 image and themselves.
\<close>

theorem refine_inliers_witness:
  "refineMatchesWithHomography cv_stub keypoints_26 keypoints_26 (Fin 3) matches_26 Mat_default
     = Inr (True, matches_26, Mat_eye3)"
proof -
  have h1: "25 \<le> length matches_26" by code_simp
  have h2: "matchesInRange keypoints_26 keypoints_26 matches_26" by code_simp
  have h3: "cv_findHomography cv_stub (srcPointsOf keypoints_26 matches_26)
              (dstPointsOf keypoints_26 matches_26) (Fin 3) = (Mat_eye3, replicate 26 1)"
    by code_simp
  have h4: "length (replicate 26 (1::nat)) = length matches_26" by code_simp
  have e1: "maskedMatches matches_26 (replicate 26 1) = matches_26" by code_simp
  have e2: "length matches_26 = 26" by code_simp
  have e3: "\<not> Mat_empty Mat_eye3" by code_simp
  from refine_inliers[OF h1 h2 h3 h4, of Mat_default]
  have "refineMatchesWithHomography cv_stub keypoints_26 keypoints_26 (Fin 3) matches_26
          Mat_default
        = Inr (25 < length (maskedMatches matches_26 (replicate 26 1)),
               maskedMatches matches_26 (replicate 26 1),
               if Mat_empty Mat_eye3 then Mat_eye3 else Mat_eye3)"
    by (rule conjunct1)
  then show ?thesis unfolding e1 e2 by simp
qed

subsection \<open>The ratio test\<close>

lemma ratioLoop_length:
  "\<forall>e\<in>set knnMatches. 2 \<le> length e \<Longrightarrow>
   \<exists>r. ratioLoop knnMatches acc = Inr r \<and> length r \<le> length acc + length knnMatches"
proof (induction knnMatches arbitrary: acc)
  case Nil
  then show ?case by simp
next
  case (Cons e knnMatches)
  then obtain bestMatch betterMatch rest where e: "e = bestMatch # betterMatch # rest"
    by (cases e; cases "tl e") auto
  from Cons.prems have all: "\<forall>e\<in>set knnMatches. 2 \<le> length e" by simp
  show ?case
  proof (cases "flt (distanceRatio bestMatch betterMatch) minRatio")
    case True
    with Cons.IH[OF all, of "acc @ [bestMatch]"] show ?thesis by (auto simp: e)
  next
    case False
    with Cons.IH[OF all, of acc] show ?thesis by (auto simp: e)
  qed
qed

lemma distanceRatio_finite:
  "distance bestMatch = Fin a \<Longrightarrow> distance betterMatch = Fin b \<Longrightarrow> b \<noteq> 0 \<Longrightarrow>
   \<not> isnan (distanceRatio bestMatch betterMatch)"
  by (simp add: distanceRatio_def isnan_def round32_not_nan)

text \<open>
  Claim C10.  For a trained pattern index, when the matcher returns one entry per
  query descriptor in both modes and two neighbours in every entry of the 2-nearest
  search, \<^verbatim>\<open>getMatches\<close> returns in both modes, and the ratio-test mode returns at
  most as many matches as the plain mode on the same inputs.
\<close>

theorem getMatches_ratio_le_plain:
  assumes "vec_at (m_matchers D) patternIdx = Inr matcher"
    and "length (cv_knnMatch L matcher queryDescriptors 2) = rows queryDescriptors"
    and "\<forall>e\<in>set (cv_knnMatch L matcher queryDescriptors 2). length e = 2"
    and "length (cv_match L matcher queryDescriptors) = rows queryDescriptors"
  shows "\<exists>r p. getMatches L (D\<lparr>enableRatioTest := True\<rparr>) queryDescriptors patternIdx = Inr r \<and>
               getMatches L (D\<lparr>enableRatioTest := False\<rparr>) queryDescriptors patternIdx = Inr p \<and>
               length r \<le> length p"
proof -
  have "\<forall>e\<in>set (cv_knnMatch L matcher queryDescriptors 2). 2 \<le> length e"
    using assms(3) by simp
  from ratioLoop_length[OF this, of "[]"] obtain r where
    r: "ratioLoop (cv_knnMatch L matcher queryDescriptors 2) [] = Inr r"
    and len: "length r \<le> length (cv_knnMatch L matcher queryDescriptors 2)" by auto
  show ?thesis
    using assms(1,2,4) r len by (simp add: getMatches_def)
qed

text \<open>The ratio test on the matches of the sample library: every best match passes.\<close>

lemma fdiv_quarter: "fdiv (Fin 1) (Fin 4) = Fin (1 / 4)"
  by code_simp

lemma minRatio_value: "minRatio = Fin (11184811 / 16777216)"
  by code_simp

lemma ratioLoop_stub:
  "ratioLoop (map stub_knn idxs) acc = Inr (acc @ map (\<lambda>i. hd (stub_knn i)) idxs)"
  by (induction idxs arbitrary: acc)
     (simp_all add: stub_knn_def distanceRatio_def fdiv_quarter minRatio_value
               del: fdiv.simps)

text \<open>
  The theorem at the detector trained on the 8-by-4 image and its 26 descriptors.
\<close>

theorem getMatches_ratio_le_plain_witness:
  "getMatches cv_stub ((trained_8x4 False)\<lparr>enableRatioTest := True\<rparr>) descriptors_26 0
     = Inr matches_26 \<and>
   getMatches cv_stub ((trained_8x4 False)\<lparr>enableRatioTest := False\<rparr>) descriptors_26 0
     = Inr matches_26 \<and>
   (\<exists>r p. getMatches cv_stub ((trained_8x4 False)\<lparr>enableRatioTest := True\<rparr>) descriptors_26 0 = Inr r \<and>
          getMatches cv_stub ((trained_8x4 False)\<lparr>enableRatioTest := False\<rparr>) descriptors_26 0 = Inr p \<and>
          length r \<le> length p)"
proof -
  have h1: "vec_at (m_matchers (trained_8x4 False)) 0 = Inr [descriptors_26]" by code_simp
  have h2: "length (cv_knnMatch cv_stub [descriptors_26] descriptors_26 2) = rows descriptors_26"
    by code_simp
  have h3: "\<forall>e\<in>set (cv_knnMatch cv_stub [descriptors_26] descriptors_26 2). length e = 2"
    by (simp add: cv_stub_def stub_knn_def)
  have h4: "length (cv_match cv_stub [descriptors_26] descriptors_26) = rows descriptors_26"
    by code_simp
  have e1: "getMatches cv_stub ((trained_8x4 False)\<lparr>enableRatioTest := True\<rparr>) descriptors_26 0
     = Inr matches_26"
    using h1 ratioLoop_stub[of "[0..<26]" "[]"]
    by (simp add: getMatches_def cv_stub_def descriptors_26_def matches_26_def)
  have e2: "getMatches cv_stub ((trained_8x4 False)\<lparr>enableRatioTest := False\<rparr>) descriptors_26 0
     = Inr matches_26" by code_simp
  from getMatches_ratio_le_plain[OF h1 h2 h3 h4] e1 e2 show ?thesis by blast
qed

text \<open>
  Claim C2 does not hold of the code.  The ratio is \<^verbatim>\<open>bestMatch.distance /
  betterMatch.distance\<close>; with finite distances and a second-best distance other than
  zero it is not NaN (\<open>distanceRatio_finite\<close>), but when both distances are zero it is
  \<open>0 / 0\<close>, which is NaN.  The comparison with \<^verbatim>\<open>minRatio\<close> is then false and the match is dropped, in
  the loop shared by \<^verbatim>\<open>findPatternMatch\<close> and \<^verbatim>\<open>getMatches\<close>.
\<close>

theorem distanceRatio_zero_zero:
  "isnan (distanceRatio best_zero better_zero) \<and>
   ratioLoop [[best_zero, better_zero]] [] = Inr [] \<and>
   getMatches (cv_stub\<lparr>cv_knnMatch := (\<lambda>trained query k. [[best_zero, better_zero]])\<rparr>)
     (trained_8x4 True) descriptors_26 0 = Inr []"
  by code_simp

subsection \<open>The matching jobs and the selection\<close>

lemma findPatternMatch_inv:
  assumes "findPatternMatch L D q i = Inr D'" and "slotsInv D n"
  shows "slotsInv D' n \<and> m_patterns D' = m_patterns D \<and> m_matchers D' = m_matchers D \<and>
         enableRatioTest D' = enableRatioTest D \<and>
         enableHomographyRefinement D' = enableHomographyRefinement D \<and>
         homographyReprojectionThreshold D' = homographyReprojectionThreshold D \<and>
         m_grayImg D' = m_grayImg D \<and> m_queryKeypoints D' = m_queryKeypoints D \<and>
         m_refinedHomography D' = m_refinedHomography D"
  using assms
  by (auto simp: findPatternMatch_def slotsInv_def nth_list_update
           dest!: refine_post split: sum.splits if_splits)

lemma PatternMatch_inv:
  "PatternMatch L q idxs D = Inr D' \<Longrightarrow> slotsInv D n \<Longrightarrow>
   slotsInv D' n \<and> m_patterns D' = m_patterns D \<and> m_matchers D' = m_matchers D \<and>
   enableRatioTest D' = enableRatioTest D \<and>
   enableHomographyRefinement D' = enableHomographyRefinement D \<and>
   homographyReprojectionThreshold D' = homographyReprojectionThreshold D \<and>
   m_grayImg D' = m_grayImg D \<and> m_queryKeypoints D' = m_queryKeypoints D \<and>
   m_refinedHomography D' = m_refinedHomography D"
proof (induction idxs arbitrary: D)
  case Nil
  then show ?case by simp
next
  case (Cons i idxs)
  from Cons.prems(1) obtain D1 where 1: "findPatternMatch L D q (int i) = Inr D1"
    and 2: "PatternMatch L q idxs D1 = Inr D'"
    by (auto split: sum.splits)
  from findPatternMatch_inv[OF 1 Cons.prems(2)] Cons.IH[OF 2]
  show ?case by simp
qed

lemma findPattern_match_inv:
  assumes "findPattern_match L D img = Inr D1"
  shows "slotsInv D1 (length (m_patterns D1)) \<and> m_patterns D1 = m_patterns D \<and>
         m_matchers D1 = m_matchers D \<and>
         enableRatioTest D1 = enableRatioTest D \<and>
         enableHomographyRefinement D1 = enableHomographyRefinement D \<and>
         homographyReprojectionThreshold D1 = homographyReprojectionThreshold D \<and>
         m_refinedHomography D1 = m_refinedHomography D"
proof -
  from assms obtain flag kps descs where
    pm: "PatternMatch L descs [0..<length (m_patterns D)]
           (D\<lparr>m_grayImg := getGray L img (m_grayImg D),
              m_queryKeypoints := kps,
              m_queryDescriptors := descs,
              m_matches := replicate (length (m_patterns D)) [],
              m_matches_homographyFound := replicate (length (m_patterns D)) False,
              m_matches_homography := replicate (length (m_patterns D)) Mat_default\<rparr>) = Inr D1"
    by (auto simp: findPattern_match_def Let_def split: sum.splits)
  have "slotsInv (D\<lparr>m_grayImg := getGray L img (m_grayImg D),
              m_queryKeypoints := kps,
              m_queryDescriptors := descs,
              m_matches := replicate (length (m_patterns D)) [],
              m_matches_homographyFound := replicate (length (m_patterns D)) False,
              m_matches_homography := replicate (length (m_patterns D)) Mat_default\<rparr>)
          (length (m_patterns D))"
    by (simp add: slotsInv_def)
  from PatternMatch_inv[OF pm this] show ?thesis by simp
qed

lemma selectLoop_inv:
  assumes "length founds = n" and "length matches = n"
    and "\<forall>i<n. founds ! i \<longrightarrow> 0 < length (matches ! i)"
  shows "k \<le> n \<Longrightarrow> selectInv founds matches k s \<Longrightarrow>
         \<exists>s'. selectLoop founds matches [k..<n] s = Inr s' \<and> selectInv founds matches n s'"
proof (induction "n - k" arbitrary: k s)
  case 0
  then show ?case by simp
next
  case (Suc d)
  then have kn: "k < n" and d: "d = n - Suc k" by simp_all
  obtain hf mf idx where s: "s = (hf, mf, idx)" by (cases s)
  have upt: "[k..<n] = k # [Suc k..<n]" using kn by (simp add: upt_conv_Cons)
  let ?s' = "if founds ! k \<and> mf < length (matches ! k) then (True, length (matches ! k), int k) else s"
  have step: "selectLoop founds matches [k..<n] s = selectLoop founds matches [Suc k..<n] ?s'"
    using kn assms(1,2) by (simp add: upt s)
  have inv': "selectInv founds matches (Suc k) ?s'"
    using Suc.prems(2) assms(3) kn
    unfolding s selectInv_def
    by (auto simp: less_Suc_eq)
  from Suc.hyps(1)[OF d _ inv'] kn step show ?case by simp
qed

lemma selectLoop_all:
  assumes "length founds = n" and "length matches = n"
    and "\<forall>i<n. founds ! i \<longrightarrow> 0 < length (matches ! i)"
  shows "\<exists>s'. selectLoop founds matches [0..<n] (False, 0, - 1) = Inr s' \<and>
              selectInv founds matches n s'"
  using selectLoop_inv[OF assms, of 0 "(False, 0, - 1)"]
  by (simp add: selectInv_def)

lemma selectInv_D:
  assumes "selectInv founds matches n (hf, mf, idx)"
  shows "(hf \<longleftrightarrow> (\<exists>i<n. founds ! i))"
    and "hf \<Longrightarrow> 0 \<le> idx \<and> nat idx < n \<and> founds ! nat idx \<and>
           (\<forall>j<n. founds ! j \<longrightarrow> length (matches ! j) \<le> length (matches ! nat idx)) \<and>
           (\<forall>j<nat idx. founds ! j \<longrightarrow> length (matches ! j) < length (matches ! nat idx))"
  using assms by (auto simp: selectInv_def)

lemma findPattern_match_select:
  assumes "findPattern_match L D img = Inr D1"
  shows "\<exists>s. selectLoop (m_matches_homographyFound D1) (m_matches D1)
               [0..<length (m_patterns D1)] (False, 0, - 1) = Inr s \<and>
             selectInv (m_matches_homographyFound D1) (m_matches D1) (length (m_patterns D1)) s"
proof -
  from findPattern_match_inv[OF assms]
  have inv: "slotsInv D1 (length (m_patterns D1))" by blast
  then have "\<forall>i<length (m_patterns D1).
               m_matches_homographyFound D1 ! i \<longrightarrow> 0 < length (m_matches D1 ! i)"
    by (auto simp: slotsInv_def)
  with inv show ?thesis
    by (intro selectLoop_all) (simp_all add: slotsInv_def)
qed

text \<open>
  Claim C7.  After the matching jobs, the selection loop visits the slots in store
  order from index 0 and returns.  Its flag is true exactly when some slot is marked
  as found.  In that case the selected index is a found slot whose match count is the
  largest among the found slots, and every found slot before it has strictly fewer
  matches (the first slot with the maximal count wins); \<^verbatim>\<open>findPattern\<close> continues
  with that index.  When no slot is marked as found, \<^verbatim>\<open>findPattern\<close> returns false
  and leaves \<^verbatim>\<open>info\<close> as it was.
\<close>

theorem findPattern_selects_best:
  assumes "findPattern_match L D img = Inr D1"
  shows "\<exists>homographyFound maxFound maxFoundIdx.
           selectLoop (m_matches_homographyFound D1) (m_matches D1)
             [0..<length (m_patterns D1)] (False, 0, - 1)
             = Inr (homographyFound, maxFound, maxFoundIdx) \<and>
           (homographyFound \<longleftrightarrow>
              (\<exists>i<length (m_patterns D1). m_matches_homographyFound D1 ! i)) \<and>
           (homographyFound \<longrightarrow>
              0 \<le> maxFoundIdx \<and> nat maxFoundIdx < length (m_patterns D1) \<and>
              m_matches_homographyFound D1 ! nat maxFoundIdx \<and>
              (\<forall>j<length (m_patterns D1). m_matches_homographyFound D1 ! j \<longrightarrow>
                 length (m_matches D1 ! j) \<le> length (m_matches D1 ! nat maxFoundIdx)) \<and>
              (\<forall>j<nat maxFoundIdx. m_matches_homographyFound D1 ! j \<longrightarrow>
                 length (m_matches D1 ! j) < length (m_matches D1 ! nat maxFoundIdx)) \<and>
              findPattern L D img info = findPattern_refine L D1 info maxFoundIdx) \<and>
           (\<not> homographyFound \<longrightarrow> findPattern L D img info = Inr (False, info, D1))"
proof -
  from findPattern_match_select[OF assms] obtain hf mf idx where
    sel: "selectLoop (m_matches_homographyFound D1) (m_matches D1)
            [0..<length (m_patterns D1)] (False, 0, - 1) = Inr (hf, mf, idx)"
    and inv: "selectInv (m_matches_homographyFound D1) (m_matches D1)
                (length (m_patterns D1)) (hf, mf, idx)"
    by (metis prod_cases3)
  have fp: "findPattern L D img info =
              (if \<not> hf then Inr (False, info, D1) else findPattern_refine L D1 info idx)"
    using assms sel by (simp add: findPattern_def)
  show ?thesis
    using sel selectInv_D[OF inv] fp
    by (intro exI[of _ hf] exI[of _ mf] exI[of _ idx]) (cases hf; simp)
qed

text \<open>
  The theorem at a detector trained on two equal patterns: both slots are found with
  26 matches each, and the slot 0 is selected.
\<close>

theorem findPattern_selects_best_witness:
  "findPattern_match cv_stub trained_twice image_8x4
     = Inr (after_match cv_stub trained_twice image_8x4) \<and>
   map length (m_matches (after_match cv_stub trained_twice image_8x4)) = [26, 26] \<and>
   m_matches_homographyFound (after_match cv_stub trained_twice image_8x4) = [True, True] \<and>
   (\<exists>maxFound.
      selectLoop (m_matches_homographyFound (after_match cv_stub trained_twice image_8x4))
        (m_matches (after_match cv_stub trained_twice image_8x4))
        [0..<length (m_patterns (after_match cv_stub trained_twice image_8x4))] (False, 0, - 1)
      = Inr (True, maxFound, 0))"
proof -
  let ?D1 = "after_match cv_stub trained_twice image_8x4"
  have h: "findPattern_match cv_stub trained_twice image_8x4 = Inr ?D1" by code_simp
  have l: "map length (m_matches ?D1) = [26, 26]" by code_simp
  have f: "m_matches_homographyFound ?D1 = [True, True]" by code_simp
  have n: "length (m_patterns ?D1) = 2" by code_simp
  from findPattern_selects_best[OF h, of info0] obtain hf mf idx where
    sel: "selectLoop (m_matches_homographyFound ?D1) (m_matches ?D1)
            [0..<length (m_patterns ?D1)] (False, 0, - 1) = Inr (hf, mf, idx)"
    and hf: "hf \<longleftrightarrow> (\<exists>i<length (m_patterns ?D1). m_matches_homographyFound ?D1 ! i)"
    and best: "hf \<longrightarrow> 0 \<le> idx \<and> nat idx < length (m_patterns ?D1) \<and>
       (\<forall>j<nat idx. m_matches_homographyFound ?D1 ! j \<longrightarrow>
           length (m_matches ?D1 ! j) < length (m_matches ?D1 ! nat idx))"
    by blast
  have "m_matches_homographyFound ?D1 ! 0" using f by simp
  then have "hf" using hf n by auto
  have l0: "length (m_matches ?D1 ! 0) = 26" "length (m_matches ?D1 ! 1) = 26"
    using l by (auto simp: map_eq_Cons_conv)
  have "nat idx \<noteq> 1"
  proof
    assume a: "nat idx = 1"
    with best \<open>hf\<close> have "m_matches_homographyFound ?D1 ! 0 \<longrightarrow>
           length (m_matches ?D1 ! 0) < length (m_matches ?D1 ! 1)" by auto
    then show False using f l0 by simp
  qed
  with best \<open>hf\<close> n have "idx = 0" by auto
  with sel \<open>hf\<close> h l f show ?thesis by auto
qed

subsection \<open>The refinement stage\<close>

lemma findPattern_refine_result:
  assumes "findPattern_refine L D1 info idx = Inr (found, info', D')"
  shows "0 \<le> idx \<and> nat idx < length (m_patterns D1) \<and>
         info_patternIdx info' = idx \<and>
         m_pattern D' = m_patterns D1 ! nat idx \<and>
         m_roughHomography D' = m_matches_homography D1 ! nat idx \<and>
         (enableHomographyRefinement D1 \<longrightarrow>
            info_homography info' = cv_matmul L (m_roughHomography D') (m_refinedHomography D') \<and>
            info_points2d info' =
              cv_perspectiveTransform L (points2d (m_pattern D')) (info_homography info') \<and>
            (\<exists>warpedKeypoints refinedMatches inliers.
               refineMatchesWithHomography L warpedKeypoints (keypoints (m_pattern D'))
                 (homographyReprojectionThreshold D1) refinedMatches (m_refinedHomography D1)
               = Inr (found, inliers, m_refinedHomography D'))) \<and>
         (\<not> enableHomographyRefinement D1 \<longrightarrow>
            found \<and> info_homography info' = m_roughHomography D' \<and>
            info_points2d info' =
              cv_perspectiveTransform L (points2d (m_pattern D')) (m_roughHomography D'))"
  using assms
  apply (auto simp: findPattern_refine_def Mat_product_def Let_def vec_at_def
           split: sum.splits if_splits prod.splits)
  apply blast
  done

text \<open>
  The refinement stage returns false when its estimation fails and the product of the
  two homographies can be formed.
\<close>

lemma findPattern_refinement_false:
  assumes "findPattern_match L D img = Inr D1"
    and "selectLoop (m_matches_homographyFound D1) (m_matches D1)
           [0..<length (m_patterns D1)] (False, 0, - 1) = Inr (True, maxFound, maxFoundIdx)"
    and "enableHomographyRefinement D"
    and "extractFeatures L
           (cv_warpPerspective L (m_grayImg D1) (m_matches_homography D1 ! nat maxFoundIdx)
              (size_pat (m_patterns D1 ! nat maxFoundIdx)))
           Mat_default = Inr (flag, warpedKeypoints, newQueryDescriptors)"
    and "getMatches L D1 newQueryDescriptors maxFoundIdx = Inr refinedMatches"
    and "refineMatchesWithHomography L warpedKeypoints
           (keypoints (m_patterns D1 ! nat maxFoundIdx)) (homographyReprojectionThreshold D1)
           refinedMatches (m_refinedHomography D1) = Inr (found, inliers, refined)"
  shows "findPattern L D img info =
           (case Mat_product L (m_matches_homography D1 ! nat maxFoundIdx) refined of
              Inl e \<Rightarrow> Inl e
            | Inr H \<Rightarrow>
                Inr (found,
                     info\<lparr>info_patternIdx := maxFoundIdx, info_homography := H,
                          info_points2d :=
                            cv_perspectiveTransform L
                              (points2d (m_patterns D1 ! nat maxFoundIdx)) H\<rparr>,
                     D1\<lparr>m_roughHomography := m_matches_homography D1 ! nat maxFoundIdx,
                        m_pattern := m_patterns D1 ! nat maxFoundIdx,
                        m_warpedImg :=
                          cv_warpPerspective L (m_grayImg D1)
                            (m_matches_homography D1 ! nat maxFoundIdx)
                            (size_pat (m_patterns D1 ! nat maxFoundIdx)),
                        m_refinedHomography := refined\<rparr>))"
proof -
  from findPattern_match_inv[OF assms(1)]
  have inv: "slotsInv D1 (length (m_patterns D1))"
    and en: "enableHomographyRefinement D1" using assms(3) by auto
  from findPattern_match_select[OF assms(1)] assms(2)
  have "selectInv (m_matches_homographyFound D1) (m_matches D1) (length (m_patterns D1))
          (True, maxFound, maxFoundIdx)" by auto
  from selectInv_D(2)[OF this]
  have idx: "0 \<le> maxFoundIdx" "nat maxFoundIdx < length (m_patterns D1)" by simp_all
  then have idx': "maxFoundIdx < int (length (m_patterns D1))"
    "maxFoundIdx < int (length (m_matches_homography D1))"
    using inv by (simp_all add: slotsInv_def)
  have gm: "getMatches L
              (D1\<lparr>m_roughHomography := m_matches_homography D1 ! nat maxFoundIdx,
                  m_pattern := m_patterns D1 ! nat maxFoundIdx,
                  m_warpedImg := cv_warpPerspective L (m_grayImg D1)
                     (m_matches_homography D1 ! nat maxFoundIdx)
                     (size_pat (m_patterns D1 ! nat maxFoundIdx))\<rparr>)
              newQueryDescriptors maxFoundIdx = Inr refinedMatches"
    using assms(5) by (auto simp: getMatches_def split: sum.splits if_splits)
  have "findPattern_refine L D1 info maxFoundIdx =
           (case Mat_product L (m_matches_homography D1 ! nat maxFoundIdx) refined of
              Inl e \<Rightarrow> Inl e
            | Inr H \<Rightarrow>
                Inr (found,
                     info\<lparr>info_patternIdx := maxFoundIdx, info_homography := H,
                          info_points2d :=
                            cv_perspectiveTransform L
                              (points2d (m_patterns D1 ! nat maxFoundIdx)) H\<rparr>,
                     D1\<lparr>m_roughHomography := m_matches_homography D1 ! nat maxFoundIdx,
                        m_pattern := m_patterns D1 ! nat maxFoundIdx,
                        m_warpedImg :=
                          cv_warpPerspective L (m_grayImg D1)
                            (m_matches_homography D1 ! nat maxFoundIdx)
                            (size_pat (m_patterns D1 ! nat maxFoundIdx)),
                        m_refinedHomography := refined\<rparr>))"
    using idx(1) idx' en assms(4,6) gm
    by (simp add: findPattern_refine_def vec_at_def Let_def split: sum.splits)
  then show ?thesis
    using assms(1,2) by (simp add: findPattern_def)
qed

text \<open>
  With fewer than 25 re-matches the estimation returns before it writes the refinement
  homography; on a detector whose \<^verbatim>\<open>m_refinedHomography\<close> is still empty the product
  then raises.
\<close>

lemma findPattern_refinement_empty_raises:
  assumes "findPattern_match L D img = Inr D1"
    and "selectLoop (m_matches_homographyFound D1) (m_matches D1)
           [0..<length (m_patterns D1)] (False, 0, - 1) = Inr (True, maxFound, maxFoundIdx)"
    and "enableHomographyRefinement D"
    and "extractFeatures L
           (cv_warpPerspective L (m_grayImg D1) (m_matches_homography D1 ! nat maxFoundIdx)
              (size_pat (m_patterns D1 ! nat maxFoundIdx)))
           Mat_default = Inr (flag, warpedKeypoints, newQueryDescriptors)"
    and "getMatches L D1 newQueryDescriptors maxFoundIdx = Inr refinedMatches"
    and "length refinedMatches < 25"
    and "Mat_empty (m_refinedHomography D)"
  shows "findPattern L D img info = Inl CvException"
proof -
  from findPattern_match_inv[OF assms(1)]
  have same: "m_refinedHomography D1 = m_refinedHomography D" by blast
  have r: "refineMatchesWithHomography L warpedKeypoints
           (keypoints (m_patterns D1 ! nat maxFoundIdx)) (homographyReprojectionThreshold D1)
           refinedMatches (m_refinedHomography D1)
           = Inr (False, refinedMatches, m_refinedHomography D1)"
    using assms(6) by (simp add: refineMatchesWithHomography_def minNumberMatchesAllowed_def)
  show ?thesis
    using findPattern_refinement_false[OF assms(1-5) r, of info] assms(7)
    by (simp add: Mat_product_def same)
qed

lemma findPattern_shiftwarp:
  "findPattern cv_shiftwarp (trained_8x4 False) image_8x4 info0
     = Inr (False, info_findPattern cv_shiftwarp (trained_8x4 False) image_8x4,
            after_findPattern cv_shiftwarp (trained_8x4 False) image_8x4)"
  by code_simp

text \<open>
  Claim C8 does not hold of the code.  \<^verbatim>\<open>findPattern\<close> evaluates the product
  \<^verbatim>\<open>m_roughHomography * m_refinedHomography\<close> before it returns the flag of the
  refinement-stage estimation.  When the estimation fails with 25 re-matches or more,
  or on a detector whose \<^verbatim>\<open>m_refinedHomography\<close> was written by an earlier call, the
  product is formed and the call returns false (\<open>findPattern_refinement_false\<close>,
  \<open>findPattern_shiftwarp\<close>).  With fewer than 25 re-matches on a detector that has
  refined nothing yet, \<^verbatim>\<open>m_refinedHomography\<close> is the empty matrix of the constructor
  and the product raises (\<open>findPattern_refinement_empty_raises\<close>).  Below: the detector
  trained on the 8-by-4 image has refinement enabled and an empty refinement
  homography, the frame gives a rough homography with 26 matches, the warped view is
  blank, and the call raises instead of returning false.
\<close>

theorem findPattern_refinement_raises:
  "enableHomographyRefinement (trained_8x4 False) \<and>
   Mat_empty (m_refinedHomography (trained_8x4 False)) \<and>
   m_matches_homographyFound (after_match cv_blankwarp (trained_8x4 False) image_8x4) = [True] \<and>
   map length (m_matches (after_match cv_blankwarp (trained_8x4 False) image_8x4)) = [26] \<and>
   cv_detect cv_blankwarp image_blank = [] \<and>
   findPattern cv_blankwarp (trained_8x4 False) image_8x4 info0 = Inl CvException"
  by code_simp

text \<open>
  Claim C9.  When \<^verbatim>\<open>findPattern\<close> returns true with refinement enabled, the output
  homography is the product of the rough homography (left) and the refinement
  homography (right), the latter being the matrix that the refinement-stage estimation
  returned with its flag true, and the output corners are the selected pattern's
  \<^verbatim>\<open>points2d\<close> transformed through that product.  With refinement disabled the
  output homography is the rough homography and the corners are transformed through
  it.  The rough homography and the pattern are those of the slot \<^verbatim>\<open>info.patternIdx\<close>.
\<close>

theorem findPattern_output:
  assumes "findPattern L D img info = Inr (True, info', D')"
  shows "(enableHomographyRefinement D \<longrightarrow>
            info_homography info' = cv_matmul L (m_roughHomography D') (m_refinedHomography D') \<and>
            info_points2d info' =
              cv_perspectiveTransform L (points2d (m_pattern D')) (info_homography info') \<and>
            (\<exists>warpedKeypoints refinedMatches inliers.
               refineMatchesWithHomography L warpedKeypoints (keypoints (m_pattern D'))
                 (homographyReprojectionThreshold D) refinedMatches (m_refinedHomography D)
               = Inr (True, inliers, m_refinedHomography D'))) \<and>
         (\<not> enableHomographyRefinement D \<longrightarrow>
            info_homography info' = m_roughHomography D' \<and>
            info_points2d info' =
              cv_perspectiveTransform L (points2d (m_pattern D')) (m_roughHomography D')) \<and>
         0 \<le> info_patternIdx info' \<and> nat (info_patternIdx info') < length (m_patterns D) \<and>
         m_pattern D' = m_patterns D ! nat (info_patternIdx info') \<and>
         m_roughHomography D' = m_matches_homography D' ! nat (info_patternIdx info')"
proof -
  from assms obtain D1 hf mf idx where
    m: "findPattern_match L D img = Inr D1"
    and r: "findPattern_refine L D1 info idx = Inr (True, info', D')"
    by (auto simp: findPattern_def split: sum.splits if_splits)
  have same: "m_matches_homography D' = m_matches_homography D1"
    using r
    by (auto simp: findPattern_refine_def Mat_product_def Let_def
             split: sum.splits if_splits prod.splits)
  from findPattern_match_inv[OF m]
  have eq: "m_patterns D1 = m_patterns D"
    "enableHomographyRefinement D1 = enableHomographyRefinement D"
    "homographyReprojectionThreshold D1 = homographyReprojectionThreshold D"
    "m_refinedHomography D1 = m_refinedHomography D"
    by blast+
  from findPattern_refine_result[OF r]
  show ?thesis unfolding eq same by blast
qed

text \<open>
  The theorem at the detector trained on the 8-by-4 image, queried with that image.
\<close>

theorem findPattern_output_witness:
  "findPattern cv_stub (trained_8x4 False) image_8x4 info0
     = Inr (True, info_findPattern cv_stub (trained_8x4 False) image_8x4,
            after_findPattern cv_stub (trained_8x4 False) image_8x4) \<and>
   info_homography (info_findPattern cv_stub (trained_8x4 False) image_8x4)
     = cv_matmul cv_stub
         (m_roughHomography (after_findPattern cv_stub (trained_8x4 False) image_8x4))
         (m_refinedHomography (after_findPattern cv_stub (trained_8x4 False) image_8x4))"
proof -
  have h: "findPattern cv_stub (trained_8x4 False) image_8x4 info0
     = Inr (True, info_findPattern cv_stub (trained_8x4 False) image_8x4,
            after_findPattern cv_stub (trained_8x4 False) image_8x4)" by code_simp
  have e: "enableHomographyRefinement (trained_8x4 False)" by code_simp
  from findPattern_output[OF h] e h show ?thesis by blast
qed

subsection \<open>Detection without patterns, detection without keypoints\<close>

text \<open>
  Claim C3, as the code has it.  \<^verbatim>\<open>findPattern\<close> on a detector with no pattern in
  its store (as before any call of \<^verbatim>\<open>train\<close>) and a frame whose gray image is
  non-empty and single-channel returns false and leaves \<^verbatim>\<open>info\<close> as it was: no
  check of the store is made and nothing fails.
\<close>

theorem findPattern_untrained:
  assumes "m_patterns D = []"
    and "\<not> Mat_empty (getGray L img (m_grayImg D))"
    and "channels (getGray L img (m_grayImg D)) = 1"
  shows "\<exists>D'. findPattern L D img info = Inr (False, info, D')"
  using assms
  by (auto simp: findPattern_def findPattern_match_def extractFeatures_def Let_def
           split: prod.splits)

text \<open>
  The theorem at a freshly constructed detector and the 8-by-4 image.
\<close>

theorem findPattern_untrained_witness:
  "m_patterns (PatternDetector_new True) = [] \<and>
   (\<exists>D'. findPattern cv_stub (PatternDetector_new True) image_8x4 info0 = Inr (False, info0, D'))"
proof -
  have h1: "m_patterns (PatternDetector_new True) = []" by code_simp
  have h2: "\<not> Mat_empty (getGray cv_stub image_8x4 (m_grayImg (PatternDetector_new True)))"
    by code_simp
  have h3: "channels (getGray cv_stub image_8x4 (m_grayImg (PatternDetector_new True))) = 1"
    by code_simp
  from findPattern_untrained[OF h1 h2 h3, of info0] h1 show ?thesis by blast
qed

text \<open>
  Claim C3 as stated fails: on a freshly constructed detector the call is not a
  failure, it returns false.
\<close>

theorem findPattern_untrained_counterexample:
  "findPattern cv_stub (PatternDetector_new True) image_8x4 info0
     = Inr (False, info0, after_findPattern cv_stub (PatternDetector_new True) image_8x4)"
  by code_simp

lemma pointsLoop_no_query_keypoints:
  "matches \<noteq> [] \<Longrightarrow> pointsLoop [] trainKeypoints matches = Inl OutOfRange"
  by (cases matches) (auto simp: vec_at_def split: sum.splits)

lemma findPattern_no_keypoints_fails:
  assumes "\<not> Mat_empty (getGray L img (m_grayImg D))"
    and "channels (getGray L img (m_grayImg D)) = 1"
    and "cv_detect L (getGray L img (m_grayImg D)) = []"
    and "m_patterns D = pattern # patterns"
    and "m_matchers D = matcher # matchers"
    and "\<not> enableRatioTest D"
    and "25 \<le> length (cv_match L matcher (m_queryDescriptors D))"
  shows "findPattern L D img info = Inl OutOfRange"
proof -
  let ?ms = "cv_match L matcher (m_queryDescriptors D)"
  have ne: "?ms \<noteq> []" using assms(7) by auto
  have r: "refineMatchesWithHomography L [] (keypoints pattern)
             (homographyReprojectionThreshold D) ?ms Mat_default = Inl OutOfRange"
    using assms(7) pointsLoop_no_query_keypoints[OF ne]
    by (simp add: refineMatchesWithHomography_def minNumberMatchesAllowed_def)
  have upt: "[0..<Suc (length patterns)] = 0 # [Suc 0..<Suc (length patterns)]"
    by (simp add: upt_conv_Cons del: upt_Suc)
  show ?thesis
    using assms(1-6) r
    by (simp add: findPattern_def findPattern_match_def extractFeatures_def Let_def
                  findPatternMatch_def vec_at_def upt del: upt_Suc)
qed

lemma findPattern_no_keypoints_fresh:
  "findPattern cv_stub (trained_8x4 False) image_blank info0
     = Inr (False, info0, after_findPattern cv_stub (trained_8x4 False) image_blank)"
  by code_simp

text \<open>
  Claim C4 does not hold of the code.  \<^verbatim>\<open>findPattern\<close> does not look at the flag
  of \<^verbatim>\<open>extractFeatures\<close>.  When the detector finds no keypoint, the member
  \<^verbatim>\<open>m_queryDescriptors\<close> keeps the descriptors of the previous frame while
  \<^verbatim>\<open>m_queryKeypoints\<close> is empty; the matches computed from the stale descriptors
  then index the empty keypoint vector: in plain mode the call reads out of range as
  soon as the stale descriptors give 25 matches for the first pattern
  (\<open>findPattern_no_keypoints_fails\<close>).  On a detector that has seen no frame the same
  call returns false (\<open>findPattern_no_keypoints_fresh\<close>).  Below: a first call on the
  8-by-4 image succeeds, the blank image has no keypoint, and the second call on the
  blank image reads out of range.
\<close>

theorem findPattern_no_keypoints_stale:
  "findPattern cv_stub (trained_8x4 False) image_8x4 info0
     = Inr (True, info_findPattern cv_stub (trained_8x4 False) image_8x4,
            after_findPattern cv_stub (trained_8x4 False) image_8x4) \<and>
   cv_detect cv_stub image_blank = [] \<and>
   findPattern cv_stub (after_findPattern cv_stub (trained_8x4 False) image_8x4) image_blank info0
     = Inl OutOfRange"
  by code_simp

end
